theory Spec2Isabelle
  imports Complex_Main "HOL-Library.Sublist"
begin

section \<open>Strings as script.js uses them\<close>

text \<open>
  JavaScript strings are modelled as \<^typ>\<open>string\<close> (lists of characters). The model covers
  text whose code units are below 256; of the characters \<open>String.prototype.trim\<close> removes,
  those in that range are tab, line feed, vertical tab, form feed, carriage return, space
  and the no-break space.
\<close>

definition newline :: char where
  "newline = CHR 0x0A"

definition is_js_whitespace :: "char \<Rightarrow> bool" where
  "is_js_whitespace c =
     (c = CHR 0x09 \<or> c = CHR 0x0A \<or> c = CHR 0x0B \<or> c = CHR 0x0C \<or> c = CHR 0x0D
      \<or> c = CHR 0x20 \<or> c = CHR 0xA0)"

text \<open>\<open>s.trim()\<close>\<close>

definition js_trim :: "string \<Rightarrow> string" where
  "js_trim s = rev (dropWhile is_js_whitespace (rev (dropWhile is_js_whitespace s)))"

text \<open>The regular expression class \<open>\d\<close>: the ten ASCII digits.\<close>

definition is_digit :: "char \<Rightarrow> bool" where
  "is_digit c = (c \<in> set ''0123456789'')"

text \<open>
  \<open>s.split(sep)\<close> for a non-empty separator: the pieces between the occurrences of
  \<open>sep\<close>, found from the left without overlap. \<open>cur\<close> is the piece being read.
  For the empty separator JavaScript returns the code units one by one.
\<close>

function js_split_from :: "string \<Rightarrow> string \<Rightarrow> string \<Rightarrow> string list" where
  "js_split_from sep cur s =
     (if sep = [] then map (\<lambda>c. [c]) s
      else if s = [] then [cur]
      else if prefix sep s then cur # js_split_from sep [] (drop (length sep) s)
      else js_split_from sep (cur @ [hd s]) (tl s))"
  by pat_completeness auto
termination
  by (relation "measure (\<lambda>(sep, cur, s). length s)") auto

definition js_split :: "string \<Rightarrow> string \<Rightarrow> string list" where
  "js_split sep s = js_split_from sep [] s"

text \<open>\<open>/^\d+[\.\):]/.test(line)\<close>: one or more digits at the start, then one of \<open>. ) :\<close>.\<close>

definition numbered_line :: "string \<Rightarrow> bool" where
  "numbered_line line =
     (takeWhile is_digit line \<noteq> [] \<and>
      (case dropWhile is_digit line of
         [] \<Rightarrow> False
       | c # _ \<Rightarrow> c = CHR ''.'' \<or> c = CHR '')'' \<or> c = CHR '':''))"

section \<open>The fallback question parser of startSetup\<close>

text \<open>
  The \<open>for\<close> loop of the success callback (script.js lines 296 to 311): the state of the
  loop is the list \<open>allQuestions\<close> and the string \<open>currentQuestion\<close>. An empty string
  is falsy.
\<close>

fun question_loop :: "string list \<Rightarrow> string \<Rightarrow> string list \<Rightarrow> string list \<times> string" where
  "question_loop allQuestions currentQuestion [] = (allQuestions, currentQuestion)"
| "question_loop allQuestions currentQuestion (line # rest) =
     (if numbered_line line then
        question_loop
          (if currentQuestion \<noteq> [] then allQuestions @ [js_trim currentQuestion]
           else allQuestions)
          line rest
      else question_loop allQuestions (currentQuestion @ '' '' @ line) rest)"

text \<open>
  Lines 293 to 315, run when \<open>allQuestions.length === 0\<close>: the lines that are not blank,
  the loop, the last question, and the split on blank lines when nothing was found.
\<close>

definition fallback_parse :: "string \<Rightarrow> string list" where
  "fallback_parse questionsText =
     (let questionLines = filter (\<lambda>line. js_trim line \<noteq> []) (js_split [newline] questionsText);
          (found, currentQuestion) = question_loop [] [] questionLines;
          allQuestions = (if currentQuestion \<noteq> [] then found @ [js_trim currentQuestion]
                          else found)
      in if length allQuestions = 0
         then filter (\<lambda>q. js_trim q \<noteq> []) (js_split [newline, newline] questionsText)
         else allQuestions)"

text \<open>
  The response of the question service: \<open>questions\<close> is the text, \<open>question_list\<close> the
  structured list; either may be absent from the JSON object (\<open>None\<close>).
\<close>

record start_response =
  questions_text :: "string option"
  question_list :: "string list option"

datatype js_error = TypeError | NotSupportedError | InvalidStateError

text \<open>
  Lines 288 to 316: \<open>response.question_list || []\<close>, and the fallback when that list is
  empty. \<open>questionsText.split\<close> on an absent text throws a TypeError.
\<close>

definition parse_questions :: "start_response \<Rightarrow> js_error + string list" where
  "parse_questions response =
     (let allQuestions = (case question_list response of None \<Rightarrow> [] | Some l \<Rightarrow> l)
      in if length allQuestions = 0 then
           (case questions_text response of
              None \<Rightarrow> Inl TypeError
            | Some questionsText \<Rightarrow> Inr (fallback_parse questionsText))
         else Inr allQuestions)"

text \<open>
  Two functions to compare the loop with. Both cut the lines that are not blank into runs:
  a line that matches the pattern starts a run, and the lines after it that do not match
  are accumulated into it, each after a space; every run is a question, trimmed.

  \<open>stated_fallback_rule\<close> is the rule in the specification's words: questions start at
  matching lines only, and when there is none the text is split on blank lines.
  \<open>lead_fallback_rule\<close> is what the loop is shown to compute below: the lines before the
  first matching line, when there are any, are accumulated into a question as well.
\<close>

definition accumulate :: "string \<Rightarrow> string list \<Rightarrow> string" where
  "accumulate q ls = foldl (\<lambda>q l. q @ '' '' @ l) q ls"

function numbered_questions :: "string list \<Rightarrow> string list" where
  "numbered_questions [] = []"
| "numbered_questions (l # ls) =
     js_trim (accumulate l (takeWhile (\<lambda>x. \<not> numbered_line x) ls))
       # numbered_questions (dropWhile (\<lambda>x. \<not> numbered_line x) ls)"
  by pat_completeness auto
termination
  by (relation "measure length") (auto simp: less_Suc_eq_le length_dropWhile_le)

text \<open>What the loop's state amounts to when the loop ends (lines 309 to 311).\<close>

definition finish :: "string list \<times> string \<Rightarrow> string list" where
  "finish p = (if snd p \<noteq> [] then fst p @ [js_trim (snd p)] else fst p)"

definition nonblank_lines :: "string \<Rightarrow> string list" where
  "nonblank_lines text = filter (\<lambda>l. js_trim l \<noteq> []) (js_split [newline] text)"

definition stated_fallback_rule :: "string \<Rightarrow> string list" where
  "stated_fallback_rule text =
     (let qs = numbered_questions (dropWhile (\<lambda>x. \<not> numbered_line x) (nonblank_lines text))
      in if qs = []
         then filter (\<lambda>p. js_trim p \<noteq> []) (js_split [newline, newline] text)
         else qs)"

definition lead_fallback_rule :: "string \<Rightarrow> string list" where
  "lead_fallback_rule text =
     (let ls = nonblank_lines text;
          lead = takeWhile (\<lambda>x. \<not> numbered_line x) ls;
          qs = (if lead = [] then [] else [js_trim (accumulate [] lead)])
               @ numbered_questions (dropWhile (\<lambda>x. \<not> numbered_line x) ls)
      in if qs = []
         then filter (\<lambda>p. js_trim p \<noteq> []) (js_split [newline, newline] text)
         else qs)"

section \<open>The page: globals of script.js, the document and the browser\<close>

text \<open>
  JavaScript runs every handler to completion, so each function of script.js is a function
  from the page's state to the state it leaves. What the browser does later (an animation
  frame, a recorder's stop event, a timer, the answer to a request) is a handler of its
  own, and what is waiting to run is part of the state: \<open>rafQueue\<close> holds the scheduled
  animation-frame callbacks, \<open>tasks\<close> the queued recorder events and timers,
  \<open>requests\<close> the requests sent so far, in order.

  A handler that throws leaves the state as it was when it threw: such a handler returns
  the error, if any, next to the state.

  Left out, since nothing modelled here reads them: the console, the progress bar's
  width and its cosmetic interval, the step indicator's classes, the video preview, the
  canvas shadow settings, the blink interval of startSpeaking (its callback draws
  nothing), and the removal of status messages that are not errors after five seconds
  (\<open>statusMessages\<close> keeps every message shown). Not modelled either: the globals
  \<open>audioFiles\<close>, \<open>interviewData\<close> and \<open>downloadingPdf\<close>, the functions downloadPdf
  and displayAllQuestions, the request for the upload directory, the reports of the
  cheating detection (its interval is modelled, its ticks are not) and the
  \<open>beforeunload\<close> listener. The elements the script looks up by id are taken to exist,
  except \<open>avatarContainer\<close>, \<open>mouthAnimation\<close> and \<open>expressionCanvas\<close>, whose presence
  is part of the state.
\<close>

type_synonym blob = "nat list"

datatype recorder_state = Inactive | Recording | Paused

text \<open>A MediaRecorder: its \<open>state\<close> and the media gathered since \<open>start()\<close>.\<close>

record media_recorder =
  rec_state :: recorder_state
  rec_data :: blob

datatype path_cmd =
    MoveTo real real
  | BezierCurveTo real real real real real real
  | Ellipse real real real real real real real

text \<open>A filled path: the fill style and the path.\<close>

datatype painted_path = Filled string "path_cmd list"

record canvas =
  canvas_id :: nat
  canvas_width :: real
  canvas_height :: real
  painted :: "painted_path list"

text \<open>
  The closure \<open>drawMouth\<close> that animateSpeech returns: the canvas and the constants it
  captured, and its variable \<open>frameCount\<close>.
\<close>

record mouth_loop =
  loop_canvas :: nat
  mouthX :: real
  mouthY :: real
  mouthWidth :: real
  mouthBaseHeight :: real
  loop_intensity :: real
  frameCount :: nat

datatype message_type = Info | Success | Error

datatype request =
    StartInterviewRequest string
  | SpeakQuestionRequest string string
  | UploadRecordingRequest blob nat string
  | AnalyzeInterviewRequest string nat

datatype callback = NextQuestionCycle | AnalysisRetry | HideProgress

datatype task = RecorderStopped blob | Timeout nat callback

record page =
  mediaRecorder :: "media_recorder option"
  recordedChunks :: "blob list"
  currentQuestionIndex :: nat
  questions :: "string list"
  recording :: bool
  stream :: bool
  tabFocusInterval :: "nat option"
  isSpeaking :: bool
  audioSrc :: "string option"
  audioPlaying :: bool
  expressionCanvas :: "nat option"
  animationFrame :: "nat option"
  analyzingData :: bool
  analysisRetryCount :: nat
  candidateId :: string
  allQuestions :: "string list"
  statusMessages :: "(string \<times> message_type) list"
  css_classes :: "(string \<times> string) set"
  disabled :: "string set"
  content :: "string \<Rightarrow> string"
  avatarContainer :: "(real \<times> real) option"
  mouthAnimation :: bool
  document_canvases :: "canvas list"
  resizeListeners :: "nat list"
  rafQueue :: "(nat \<times> mouth_loop) list"
  handleCounter :: nat
  intervals :: "nat list"
  tasks :: "task list"
  requests :: "request list"
  mimeTypeSupported :: bool

text \<open>
  \<open>questions\<close> holds, for each object of the global array, its \<open>question\<close> property;
  \<open>stream\<close> says whether the global holds a MediaStream; \<open>audioSrc\<close> and
  \<open>audioPlaying\<close> are the state of \<open>audioElement\<close>; \<open>avatarContainer\<close> is the
  element's bounding rectangle (width, height) when the element exists;
  \<open>document_canvases\<close> are the elements with id \<open>expressionCanvas\<close> in the document;
  \<open>resizeListeners\<close> are the registered \<open>setCanvasDimensions\<close> closures, each named by
  its canvas; \<open>handleCounter\<close> is the last handle the browser gave out (handles and
  element identities are fresh positive numbers); \<open>intervals\<close> are the running
  tab-focus intervals; \<open>mimeTypeSupported\<close> says whether the MediaRecorder constructor
  accepts \<open>video/webm;codecs=vp8,opus\<close>.
\<close>

definition MAX_RETRY_ATTEMPTS :: nat where
  "MAX_RETRY_ATTEMPTS = 3"

definition showMessage :: "string \<Rightarrow> message_type \<Rightarrow> page \<Rightarrow> page" where
  "showMessage message type s = s\<lparr>statusMessages := statusMessages s @ [(message, type)]\<rparr>"

definition addClass :: "string \<Rightarrow> string \<Rightarrow> page \<Rightarrow> page" where
  "addClass element cls s = s\<lparr>css_classes := insert (element, cls) (css_classes s)\<rparr>"

definition removeClass :: "string \<Rightarrow> string \<Rightarrow> page \<Rightarrow> page" where
  "removeClass element cls s = s\<lparr>css_classes := css_classes s - {(element, cls)}\<rparr>"

definition set_disabled :: "string \<Rightarrow> bool \<Rightarrow> page \<Rightarrow> page" where
  "set_disabled element b s =
     s\<lparr>disabled := (if b then insert element (disabled s) else disabled s - {element})\<rparr>"

definition set_content :: "string \<Rightarrow> string \<Rightarrow> page \<Rightarrow> page" where
  "set_content element text s = s\<lparr>content := (content s)(element := text)\<rparr>"

section \<open>The avatar animation\<close>

text \<open>
  \<open>setCanvasDimensions\<close> of the canvas \<open>c\<close>: it reads the container's rectangle (zero
  when the element is gone) and assigns the canvas's width and height, which also clears
  the canvas. A canvas that is no longer in the document is not tracked.
\<close>

definition setCanvasDimensions :: "nat \<Rightarrow> page \<Rightarrow> page" where
  "setCanvasDimensions c s =
     (let (w, h) = (case avatarContainer s of None \<Rightarrow> (0, 0) | Some r \<Rightarrow> r)
      in s\<lparr>document_canvases :=
             map (\<lambda>cv. if canvas_id cv = c
                        then cv\<lparr>canvas_width := w, canvas_height := h, painted := []\<rparr>
                        else cv)
               (document_canvases s)\<rparr>)"

text \<open>
  setupAvatarAnimations (lines 107 to 140). With no \<open>avatarContainer\<close> element,
  \<open>avatarContainer.appendChild\<close> throws a TypeError, after the old elements were removed.
  It returns the new canvas.
\<close>

definition setupAvatarAnimations :: "page \<Rightarrow> (js_error + nat) \<times> page" where
  "setupAvatarAnimations s =
     (let s1 = s\<lparr>mouthAnimation := False\<rparr>;
          s2 = s1\<lparr>document_canvases :=
                    (case document_canvases s1 of [] \<Rightarrow> [] | existingCanvas # others \<Rightarrow> others)\<rparr>;
          c = Suc (handleCounter s2);
          s3 = s2\<lparr>handleCounter := c\<rparr>
      in case avatarContainer s3 of
           None \<Rightarrow> (Inl TypeError, s3)
         | Some r \<Rightarrow>
             (let s4 = s3\<lparr>document_canvases := document_canvases s3 @
                          [\<lparr>canvas_id = c, canvas_width = 300, canvas_height = 150,
                            painted = []\<rparr>]\<rparr>;
                  s5 = setCanvasDimensions c s4;
                  s6 = s5\<lparr>resizeListeners := resizeListeners s5 @ [c]\<rparr>
              in (Inr c, s6)))"

text \<open>
  \<open>canvas.getBoundingClientRect()\<close>: the canvas is styled to fill its container, so in the
  document its rectangle is the container's; outside the document it is zero.
\<close>

definition canvas_rect :: "nat \<Rightarrow> page \<Rightarrow> real \<times> real" where
  "canvas_rect c s =
     (if list_ex (\<lambda>cv. canvas_id cv = c) (document_canvases s)
      then (case avatarContainer s of None \<Rightarrow> (0, 0) | Some r \<Rightarrow> r)
      else (0, 0))"

text \<open>animateSpeech (lines 143 to 214): \<open>null\<close> without a canvas, else the closure.\<close>

definition animateSpeech :: "nat option \<Rightarrow> real \<Rightarrow> page \<Rightarrow> mouth_loop option" where
  "animateSpeech cv i s =
     (case cv of
        None \<Rightarrow> None
      | Some c \<Rightarrow>
          (let (width, height) = canvas_rect c s
           in Some \<lparr>loop_canvas = c, mouthX = width * 0.5, mouthY = height * 0.67,
                    mouthWidth = width * 0.25, mouthBaseHeight = height * 0.04,
                    loop_intensity = i, frameCount = 0\<rparr>))"

text \<open>\<open>ctx.clearRect(0, 0, canvas.width, canvas.height)\<close>\<close>

definition clearCanvas :: "nat \<Rightarrow> page \<Rightarrow> page" where
  "clearCanvas c s =
     s\<lparr>document_canvases :=
         map (\<lambda>cv. if canvas_id cv = c then cv\<lparr>painted := []\<rparr> else cv)
           (document_canvases s)\<rparr>"

definition paint :: "nat \<Rightarrow> painted_path list \<Rightarrow> page \<Rightarrow> page" where
  "paint c ps s =
     s\<lparr>document_canvases :=
         map (\<lambda>cv. if canvas_id cv = c then cv\<lparr>painted := painted cv @ ps\<rparr> else cv)
           (document_canvases s)\<rparr>"

text \<open>Lines 166 and 167 of drawMouth.\<close>

definition mouthHeight :: "mouth_loop \<Rightarrow> real" where
  "mouthHeight l =
     (let openAmount = sin (real (frameCount l) * 0.3) * loop_intensity l + loop_intensity l
      in mouthBaseHeight l + (mouthBaseHeight l * 3 * openAmount))"

text \<open>Lines 177 to 207: the lips, two curves, and the inner mouth, an ellipse.\<close>

definition mouth_paths :: "mouth_loop \<Rightarrow> painted_path list" where
  "mouth_paths l =
     (let x = mouthX l; y = mouthY l; w = mouthWidth l; mh = mouthHeight l;
          innerWidth = w * 0.7; innerHeight = mh * 0.7
      in [Filled ''rgba(180, 90, 90, 0.85)''
            [MoveTo (x - w / 2) y,
             BezierCurveTo (x - w / 4) (y - mh / 2) (x + w / 4) (y - mh / 2) (x + w / 2) y,
             BezierCurveTo (x + w / 4) (y + mh / 2) (x - w / 4) (y + mh / 2) (x - w / 2) y],
          Filled ''rgba(100, 40, 40, 0.8)''
            [Ellipse x y (innerWidth / 2) (innerHeight / 2) 0 0 (pi * 2)]])"

definition requestAnimationFrame :: "mouth_loop \<Rightarrow> page \<Rightarrow> nat \<times> page" where
  "requestAnimationFrame cb s =
     (let h = Suc (handleCounter s)
      in (h, s\<lparr>handleCounter := h, rafQueue := rafQueue s @ [(h, cb)]\<rparr>))"

definition cancelAnimationFrame :: "nat \<Rightarrow> page \<Rightarrow> page" where
  "cancelAnimationFrame h s = s\<lparr>rafQueue := filter (\<lambda>e. fst e \<noteq> h) (rafQueue s)\<rparr>"

text \<open>
  drawMouth (lines 159 to 211): clear, stop if not speaking, else draw, count the frame
  and schedule the next one.
\<close>

definition drawMouth :: "mouth_loop \<Rightarrow> page \<Rightarrow> page" where
  "drawMouth l s =
     (let s1 = clearCanvas (loop_canvas l) s
      in if \<not> isSpeaking s1 then s1
         else (let s2 = paint (loop_canvas l) (mouth_paths l) s1;
                   (h, s3) = requestAnimationFrame (l\<lparr>frameCount := frameCount l + 1\<rparr>) s2
               in s3\<lparr>animationFrame := Some h\<rparr>))"

text \<open>startSpeaking (lines 217 to 238).\<close>

definition startSpeaking :: "page \<Rightarrow> js_error option \<times> page" where
  "startSpeaking s =
     (let s1 = addClass ''#avatarContainer'' ''avatar-speaking'' (s\<lparr>isSpeaking := True\<rparr>);
          (err, s2) =
            (case expressionCanvas s1 of
               Some c \<Rightarrow> (None, s1)
             | None \<Rightarrow>
                 (case setupAvatarAnimations s1 of
                    (Inl e, t) \<Rightarrow> (Some e, t)
                  | (Inr c, t) \<Rightarrow> (None, t\<lparr>expressionCanvas := Some c\<rparr>)))
      in case err of
           Some e \<Rightarrow> (Some e, s2)
         | None \<Rightarrow>
             (case animateSpeech (expressionCanvas s2) 0.8 s2 of
                None \<Rightarrow> (None, s2)
              | Some l \<Rightarrow> (None, drawMouth l s2)))"

text \<open>stopSpeaking (lines 240 to 255). A handle is truthy when it is not zero.\<close>

definition stopSpeaking :: "page \<Rightarrow> page" where
  "stopSpeaking s =
     (let s1 = removeClass ''#avatarContainer'' ''avatar-speaking'' (s\<lparr>isSpeaking := False\<rparr>);
          s2 = (case expressionCanvas s1 of None \<Rightarrow> s1 | Some c \<Rightarrow> clearCanvas c s1)
      in case animationFrame s2 of
           None \<Rightarrow> s2
         | Some h \<Rightarrow>
             if h = 0 then s2
             else (cancelAnimationFrame h s2)\<lparr>animationFrame := None\<rparr>)"

text \<open>
  The browser's animation frame: it runs the callbacks that were scheduled before the
  frame, in order; what they schedule waits for the next frame.
\<close>

definition animation_frame :: "page \<Rightarrow> page" where
  "animation_frame s = fold (\<lambda>e. drawMouth (snd e)) (rafQueue s) (s\<lparr>rafQueue := []\<rparr>)"

text \<open>The window's resize event, with the container's new rectangle.\<close>

definition window_resized :: "real \<times> real \<Rightarrow> page \<Rightarrow> page" where
  "window_resized r s =
     fold setCanvasDimensions (resizeListeners s)
       (s\<lparr>avatarContainer := map_option (\<lambda>old. r) (avatarContainer s)\<rparr>)"

text \<open>
  \<open>avatarImage.onload\<close> and \<open>avatarImage.onerror\<close> (lines 53 to 64): both assign
  \<open>expressionCanvas = setupAvatarAnimations()\<close>; after an error the placeholder is
  loaded, which fires \<open>onload\<close> in turn.
\<close>

definition avatar_image_handler :: "page \<Rightarrow> js_error option \<times> page" where
  "avatar_image_handler s =
     (case setupAvatarAnimations s of
        (Inl e, t) \<Rightarrow> (Some e, t)
      | (Inr c, t) \<Rightarrow> (None, t\<lparr>expressionCanvas := Some c\<rparr>))"

section \<open>Recording\<close>

text \<open>startCheatingDetection and stopCheatingDetection (lines 751 to 779).\<close>

definition startCheatingDetection :: "page \<Rightarrow> page" where
  "startCheatingDetection s =
     (let t = Suc (handleCounter s)
      in s\<lparr>handleCounter := t, intervals := intervals s @ [t], tabFocusInterval := Some t\<rparr>)"

definition stopCheatingDetection :: "page \<Rightarrow> page" where
  "stopCheatingDetection s =
     (case tabFocusInterval s of
        None \<Rightarrow> s
      | Some t \<Rightarrow>
          if t = 0 then s
          else s\<lparr>intervals := removeAll t (intervals s), tabFocusInterval := None\<rparr>)"

text \<open>
  setupRecording (lines 396 to 419). The constructor throws when the MIME type is not
  supported; the \<open>catch\<close> shows a message.
\<close>

definition setupRecording :: "page \<Rightarrow> page" where
  "setupRecording s =
     (if \<not> stream s then
        showMessage ''No media stream available. Please refresh and try again.'' Error s
      else if \<not> mimeTypeSupported s then
        showMessage
          ''Error setting up recording. Your browser may not support this feature.'' Error s
      else s\<lparr>mediaRecorder := Some \<lparr>rec_state = Inactive, rec_data = []\<rparr>,
             recordedChunks := []\<rparr>)"

text \<open>
  \<open>mediaRecorder.start()\<close> throws an InvalidStateError unless the recorder is inactive;
  \<open>mediaRecorder.stop()\<close> on a recorder that is not inactive makes it inactive and queues
  a task that fires \<open>dataavailable\<close> with the media gathered and then \<open>stop\<close>; on an
  inactive recorder it throws in the browsers that do not ignore it.
\<close>

definition recorder_start :: "media_recorder \<Rightarrow> js_error + media_recorder" where
  "recorder_start r =
     (if rec_state r = Inactive then Inr (r\<lparr>rec_state := Recording, rec_data := []\<rparr>)
      else Inl InvalidStateError)"

definition recorder_stop :: "media_recorder \<Rightarrow> js_error + media_recorder \<times> task" where
  "recorder_stop r =
     (if rec_state r = Inactive then Inl InvalidStateError
      else Inr (r\<lparr>rec_state := Inactive\<rparr>, RecorderStopped (rec_data r)))"

text \<open>The camera and microphone deliver media: a recorder that is recording gathers it.\<close>

definition media_captured :: "blob \<Rightarrow> page \<Rightarrow> page" where
  "media_captured d s =
     (case mediaRecorder s of
        None \<Rightarrow> s
      | Some r \<Rightarrow>
          if rec_state r = Recording
          then s\<lparr>mediaRecorder := Some (r\<lparr>rec_data := rec_data r @ d\<rparr>)\<rparr>
          else s)"

text \<open>startRecording (lines 421 to 441).\<close>

definition startRecording :: "page \<Rightarrow> page" where
  "startRecording s =
     (case mediaRecorder s of
        None \<Rightarrow> showMessage ''Recording not set up'' Error s
      | Some r \<Rightarrow>
          (let s1 = s\<lparr>recordedChunks := []\<rparr>
           in case recorder_start r of
                Inl e \<Rightarrow> showMessage ''Error starting recording'' Error s1
              | Inr r' \<Rightarrow>
                  (let s2 = s1\<lparr>mediaRecorder := Some r', recording := True\<rparr>;
                       s3 = addClass ''#recordingStatus'' ''status-recording''
                              (set_content ''#recordingStatus'' ''Recording'' s2)
                   in startCheatingDetection s3)))"

text \<open>stopRecording (lines 443 to 459).\<close>

definition stopRecording :: "page \<Rightarrow> page" where
  "stopRecording s =
     (case mediaRecorder s of
        None \<Rightarrow> s
      | Some r \<Rightarrow>
          if rec_state r = Inactive then s
          else (case recorder_stop r of
                  Inl e \<Rightarrow> showMessage ''Error stopping recording'' Error s
                | Inr (r', t) \<Rightarrow>
                    (let s1 = s\<lparr>mediaRecorder := Some r', tasks := tasks s @ [t]\<rparr>;
                         s2 = s1\<lparr>recording := False\<rparr>;
                         s3 = removeClass ''#recordingStatus'' ''status-recording''
                                (set_content ''#recordingStatus'' [] s2)
                     in stopCheatingDetection s3)))"

text \<open>
  saveRecording (lines 461 to 510): the upload carries the blob of the chunks, the value
  of \<open>currentQuestionIndex\<close> as it is when saveRecording runs, and the candidate id.
\<close>

definition saveRecording :: "page \<Rightarrow> page" where
  "saveRecording s =
     (if length (recordedChunks s) = 0 then
        showMessage ''No recording data available'' Error s
      else
        (let video = concat (recordedChunks s);
             s1 = set_content ''#progressBar'' ''0%''
                    (removeClass ''#progressContainer'' ''hidden'' s)
         in s1\<lparr>requests := requests s1 @
                   [UploadRecordingRequest video (currentQuestionIndex s1) (candidateId s1)]\<rparr>))"

text \<open>
  The task a stopped recorder queued: \<open>ondataavailable\<close> (lines 406 to 410), then
  \<open>onstop\<close> (lines 412 to 414).
\<close>

definition recorder_stopped :: "blob \<Rightarrow> page \<Rightarrow> page" where
  "recorder_stopped d s =
     saveRecording (if length d > 0 then s\<lparr>recordedChunks := recordedChunks s @ [d]\<rparr> else s)"

text \<open>The answers to the upload (lines 496 to 504).\<close>

definition upload_success :: "page \<Rightarrow> page" where
  "upload_success s =
     addClass ''#progressContainer'' ''hidden''
       (showMessage ''Recording saved successfully'' Success s)"

definition upload_error :: "page \<Rightarrow> page" where
  "upload_error s =
     addClass ''#progressContainer'' ''hidden''
       (showMessage ''Error saving recording. Please try again.'' Error s)"

section \<open>Speech\<close>

text \<open>
  speakQuestion (lines 363 to 394), up to the request; then the ways the request and the
  playback can end, and the \<open>ended\<close> listener of line 48.
\<close>

definition speakQuestion :: "string \<Rightarrow> page \<Rightarrow> js_error option \<times> page" where
  "speakQuestion questionText s =
     (case startSpeaking (set_content ''#speechBubble'' questionText s) of
        (Some e, s1) \<Rightarrow> (Some e, s1)
      | (None, s1) \<Rightarrow>
          (None, s1\<lparr>requests := requests s1 @
                       [SpeakQuestionRequest questionText (candidateId s1)]\<rparr>))"






definition audio_ended :: "page \<Rightarrow> page" where
  "audio_ended s = stopSpeaking (s\<lparr>audioPlaying := False\<rparr>)"

section \<open>Results\<close>

text \<open>
  The payload of the analysis service. A property that is absent from the JSON object is
  \<open>None\<close>; scores are whole numbers.
\<close>

record question_assessment =
  qa_question :: "string option"
  qa_assessment :: "string option"
  qa_score :: "int option"

record result_payload =
  overall_assessment :: "string option"
  overall_score :: "int option"
  question_assessments :: "question_assessment list option"
  strengths :: "string list option"
  areas_for_improvement :: "string list option"
  recommended_resources :: "string list option"

function show_nat :: "nat \<Rightarrow> string" where
  "show_nat n =
     (if n < 10 then [''0123456789'' ! n]
      else show_nat (n div 10) @ [''0123456789'' ! (n mod 10)])"
  by pat_completeness auto
termination
  by (relation "measure id") auto

definition show_int :: "int \<Rightarrow> string" where
  "show_int i = (if i < 0 then ''-'' @ show_nat (nat (- i)) else show_nat (nat i))"

text \<open>What a template literal prints for a property: \<open>undefined\<close> when it is absent.\<close>

definition template_string :: "string option \<Rightarrow> string" where
  "template_string v = (case v of None \<Rightarrow> ''undefined'' | Some t \<Rightarrow> t)"

definition template_number :: "int option \<Rightarrow> string" where
  "template_number v = (case v of None \<Rightarrow> ''undefined'' | Some i \<Rightarrow> show_int i)"

definition list_items :: "string list \<Rightarrow> string" where
  "list_items xs = concat (map (\<lambda>x. ''<li>'' @ x @ ''</li>'') xs)"

fun question_breakdown :: "nat \<Rightarrow> question_assessment list \<Rightarrow> string" where
  "question_breakdown index [] = []"
| "question_breakdown index (assessment # rest) =
     ''<div class=\"question-evaluation\"><h4>Q'' @ show_nat (index + 1) @ '': ''
       @ template_string (qa_question assessment) @ ''</h4><p><strong>Assessment:</strong> ''
       @ template_string (qa_assessment assessment) @ ''</p><p><strong>Score:</strong> ''
       @ template_number (qa_score assessment) @ ''/10</p></div>''
       @ question_breakdown (index + 1) rest"

definition result_section :: "string \<Rightarrow> string list \<Rightarrow> string" where
  "result_section title xs =
     ''<div class=\"result-section\"><h3>'' @ title @ ''</h3><ul>'' @ list_items xs
       @ ''</ul></div>''"

text \<open>
  displayResults (lines 616 to 688); the markup is written without the template's line
  breaks and indentation. \<open>data.strengths.map\<close>, \<open>data.areas_for_improvement.map\<close> and
  \<open>data.recommended_resources.map\<close> throw a TypeError on an absent property, while the
  template of lines 652 to 673 is evaluated. The click handler of the download button
  is not modelled.
\<close>

definition displayResults :: "result_payload option \<Rightarrow> page \<Rightarrow> js_error option \<times> page" where
  "displayResults data s =
     (case data of
        None \<Rightarrow> (None, showMessage ''Error: Invalid result data received'' Error s)
      | Some d \<Rightarrow>
          (case overall_assessment d of
             None \<Rightarrow> (None, showMessage ''Error: Invalid result data received'' Error s)
           | Some assessment \<Rightarrow>
               if assessment = [] then
                 (None, showMessage ''Error: Invalid result data received'' Error s)
               else
                 (case question_assessments d of
                    None \<Rightarrow> (None, showMessage ''Error: Invalid result data received'' Error s)
                  | Some assessments \<Rightarrow>
                      (let s1 = addClass ''#interviewContainer'' ''hidden'' s;
                           s2 = removeClass ''#resultsContainer'' ''hidden'' s1;
                           summary =
                             ''<div class=\"result-summary\"><h3>Overall Assessment</h3><p>''
                             @ assessment @ ''</p><h4>Score: ''
                             @ template_number (overall_score d) @ ''/10</h4></div>'';
                           breakdown =
                             ''<h3>Question Breakdown</h3>'' @ question_breakdown 0 assessments
                       in case strengths d of
                            None \<Rightarrow> (Some TypeError, s2)
                          | Some st \<Rightarrow>
                              (case areas_for_improvement d of
                                 None \<Rightarrow> (Some TypeError, s2)
                               | Some areas \<Rightarrow>
                                   (case recommended_resources d of
                                      None \<Rightarrow> (Some TypeError, s2)
                                    | Some resources \<Rightarrow>
                                        (None,
                                         set_content ''#resultsContent''
                                           (summary @ breakdown
                                            @ result_section ''Strengths'' st
                                            @ result_section ''Areas for Improvement'' areas
                                            @ result_section ''Recommended Resources'' resources
                                            @ ''<button id=\"downloadPdfBtn\" class=\"download-btn\">''
                                            @ ''Download Results as PDF</button>''
                                            @ ''<div id=\"pdfDownloadStatus\"></div>'')
                                           s2)))))))"

section \<open>The analysis request and its retries\<close>

text \<open>analyzeInterviewResponses (lines 576 to 584): the request is sent.\<close>

definition analyzeInterviewResponses :: "page \<Rightarrow> page" where
  "analyzeInterviewResponses s =
     s\<lparr>requests := requests s @
         [AnalyzeInterviewRequest (candidateId s) (length (questions s))]\<rparr>"

text \<open>The \<open>success\<close> callback (lines 585 to 598).\<close>

definition analysis_success :: "result_payload option \<Rightarrow> page \<Rightarrow> js_error option \<times> page" where
  "analysis_success data s =
     (let s1 = s\<lparr>analyzingData := False\<rparr>;
          s2 = set_content ''#progressBar'' ''Complete!'' s1;
          s3 = s2\<lparr>tasks := tasks s2 @ [Timeout 1000 HideProgress]\<rparr>
      in displayResults data s3)"

text \<open>The \<open>error\<close> callback (lines 599 to 612).\<close>

definition analysis_error :: "page \<Rightarrow> page" where
  "analysis_error s =
     (if analysisRetryCount s < MAX_RETRY_ATTEMPTS then
        (let s1 = s\<lparr>analysisRetryCount := analysisRetryCount s + 1\<rparr>;
             s2 = showMessage
                    (''Analysis failed. Retrying ('' @ show_nat (analysisRetryCount s1) @ ''/''
                     @ show_nat MAX_RETRY_ATTEMPTS @ '')...'') Error s1
         in s2\<lparr>tasks := tasks s2 @ [Timeout 5000 AnalysisRetry]\<rparr>)
      else
        addClass ''#progressContainer'' ''hidden''
          (showMessage
             ''Failed to analyze interview after multiple attempts. Please try again later.''
             Error (s\<lparr>analyzingData := False\<rparr>)))"

section \<open>The interview\<close>

text \<open>startSetup (lines 257 to 340): the handler, and the callbacks of its requests.\<close>

definition startSetup :: "string \<Rightarrow> page \<Rightarrow> page" where
  "startSetup role s =
     (if role = [] then showMessage ''Please select a role'' Error s
      else showMessage (''Setting up interview for '' @ role @ '' role...'') Info s)"

definition media_granted :: "string \<Rightarrow> page \<Rightarrow> page" where
  "media_granted role s =
     s\<lparr>stream := True, requests := requests s @ [StartInterviewRequest role]\<rparr>"

definition media_denied :: "page \<Rightarrow> page" where
  "media_denied s =
     showMessage
       ''Error accessing camera or microphone. Please ensure you have granted permissions.''
       Error s"

text \<open>displayQuestions (lines 690 to 698).\<close>

definition displayQuestions :: "page \<Rightarrow> page" where
  "displayQuestions s =
     set_content ''#questions-container''
       (''<ol>'' @ concat (map (\<lambda>question. ''<li class=\"question-item\">'' @ question @ ''</li>'')
                           (allQuestions s)) @ ''</ol>'')
       s"

text \<open>
  The \<open>success\<close> callback (lines 283 to 329): it fills \<open>allQuestions\<close>. When it throws,
  \<open>allQuestions\<close> has been assigned the empty list.
\<close>

definition setup_success :: "start_response \<Rightarrow> page \<Rightarrow> js_error option \<times> page" where
  "setup_success response s =
     (case parse_questions response of
        Inl e \<Rightarrow> (Some e, s\<lparr>allQuestions := []\<rparr>)
      | Inr qs \<Rightarrow>
          (None,
           removeClass ''#questions-step'' ''hidden''
             (addClass ''#setup-step'' ''hidden'' (displayQuestions (s\<lparr>allQuestions := qs\<rparr>)))))"

definition setup_error :: "page \<Rightarrow> page" where
  "setup_error s = showMessage ''Error setting up interview. Please try again.'' Error s"

text \<open>startInterview (lines 342 to 361).\<close>

definition startInterview :: "page \<Rightarrow> js_error option \<times> page" where
  "startInterview s =
     (if currentQuestionIndex s \<ge> length (questions s) then
        (None, showMessage ''No more questions available'' Error s)
      else
        (let s1 = setupRecording s;
             s2 = set_disabled ''#stopBtn'' False
                    (set_disabled ''#nextBtn'' False (set_disabled ''#startBtn'' True s1));
             s3 = startRecording s2
         in speakQuestion (questions s3 ! currentQuestionIndex s3) s3))"

text \<open>stopInterview (lines 536 to 574).\<close>

definition stopInterview :: "page \<Rightarrow> page" where
  "stopInterview s =
     (let s1 = stopRecording s;
          s2 = set_disabled ''#stopBtn'' True
                 (set_disabled ''#nextBtn'' True (set_disabled ''#startBtn'' True s1));
          s3 = showMessage ''Analyzing interview responses...'' Info s2;
          s4 = set_content ''#progressBar'' ''Analyzing...''
                 (removeClass ''#progressContainer'' ''hidden'' s3);
          s5 = stopSpeaking (s4\<lparr>audioPlaying := False\<rparr>);
          s6 = s5\<lparr>analyzingData := True, analysisRetryCount := 0\<rparr>
      in analyzeInterviewResponses s6)"

text \<open>nextQuestion (lines 512 to 534), and the callback of its timer.\<close>

definition nextQuestion :: "page \<Rightarrow> page" where
  "nextQuestion s =
     (let s1 = stopRecording s;
          s2 = s1\<lparr>currentQuestionIndex := currentQuestionIndex s1 + 1\<rparr>
      in if currentQuestionIndex s2 \<ge> length (questions s2) then stopInterview s2
         else
           (let s3 = set_content ''#currentQuestion'' (questions s2 ! currentQuestionIndex s2) s2
            in s3\<lparr>tasks := tasks s3 @ [Timeout 1000 NextQuestionCycle]\<rparr>))"

definition next_question_cycle :: "page \<Rightarrow> js_error option \<times> page" where
  "next_question_cycle s =
     (let s1 = startRecording (setupRecording s)
      in if currentQuestionIndex s1 < length (questions s1)
         then speakQuestion (questions s1 ! currentQuestionIndex s1) s1
         else (Some TypeError, s1))"

section \<open>The browser runs what is waiting\<close>

fun run_callback :: "callback \<Rightarrow> page \<Rightarrow> js_error option \<times> page" where
  "run_callback NextQuestionCycle s = next_question_cycle s"
| "run_callback AnalysisRetry s = (None, analyzeInterviewResponses s)"
| "run_callback HideProgress s = (None, addClass ''#progressContainer'' ''hidden'' s)"

text \<open>A task runs only when it is waiting, and then it is no longer waiting.\<close>

definition run_task :: "task \<Rightarrow> page \<Rightarrow> js_error option \<times> page" where
  "run_task t s =
     (if t \<in> set (tasks s) then
        (let s1 = s\<lparr>tasks := remove1 t (tasks s)\<rparr>
         in case t of
              RecorderStopped d \<Rightarrow> (None, recorder_stopped d s1)
            | Timeout delay cb \<Rightarrow> run_callback cb s1)
      else (None, s))"

text \<open>
  The analysis service answers the outstanding request, one answer after the other: after
  a failure the retry timer, if the error callback set one, fires and sends the next
  request; with no timer waiting nothing is outstanding and no further answer comes.
\<close>

datatype analysis_response = AnalysisFailed | AnalysisSucceeded "result_payload option"

fun analysis_responses :: "analysis_response list \<Rightarrow> page \<Rightarrow> page" where
  "analysis_responses [] s = s"
| "analysis_responses (AnalysisSucceeded data # rs) s = snd (analysis_success data s)"
| "analysis_responses (AnalysisFailed # rs) s =
     (let s1 = analysis_error s
      in if Timeout 5000 AnalysisRetry \<in> set (tasks s1)
         then analysis_responses rs (snd (run_task (Timeout 5000 AnalysisRetry) s1))
         else s1)"

text \<open>
  The page when script.js has been loaded (lines 1 to 20), with the candidate id and the
  container's rectangle. The document's markup is not part of the sources: no class and
  no disabled control is assumed, and every content is empty.
\<close>

definition initial_page :: "string \<Rightarrow> (real \<times> real) option \<Rightarrow> page" where
  "initial_page cid container =
     \<lparr>mediaRecorder = None, recordedChunks = [], currentQuestionIndex = 0, questions = [],
      recording = False, stream = False, tabFocusInterval = None, isSpeaking = False,
      audioSrc = None, audioPlaying = False, expressionCanvas = None, animationFrame = None,
      analyzingData = False, analysisRetryCount = 0, candidateId = cid, allQuestions = [],
      statusMessages = [], css_classes = {}, disabled = {}, content = (\<lambda>element. []),
      avatarContainer = container, mouthAnimation = False, document_canvases = [],
      resizeListeners = [], rafQueue = [], handleCounter = 0, intervals = [], tasks = [],
      requests = [], mimeTypeSupported = True\<rparr>"

section \<open>Vocabulary of the properties\<close>

text \<open>No recorder exists, or the recorder is inactive.\<close>

definition no_active_recorder :: "page \<Rightarrow> bool" where
  "no_active_recorder s =
     (case mediaRecorder s of None \<Rightarrow> True | Some r \<Rightarrow> rec_state r = Inactive)"

definition is_recorder_task :: "task \<Rightarrow> bool" where
  "is_recorder_task t = (case t of RecorderStopped d \<Rightarrow> True | Timeout delay cb \<Rightarrow> False)"

text \<open>The error messages shown so far.\<close>

definition error_messages :: "page \<Rightarrow> string list" where
  "error_messages s = map fst (filter (\<lambda>m. snd m = Error) (statusMessages s))"

text \<open>
  From \<open>s\<close> to \<open>s'\<close> nothing was done to the recorder and no error was shown: the
  recorder, the recording flag, the chunks, the tab-focus interval and the queued recorder
  events are the same, and so are the error messages.
\<close>

definition recorder_untouched :: "page \<Rightarrow> page \<Rightarrow> bool" where
  "recorder_untouched s s' =
     (mediaRecorder s' = mediaRecorder s \<and> recording s' = recording s
      \<and> recordedChunks s' = recordedChunks s \<and> tabFocusInterval s' = tabFocusInterval s
      \<and> intervals s' = intervals s
      \<and> filter is_recorder_task (tasks s') = filter is_recorder_task (tasks s)
      \<and> error_messages s' = error_messages s)"

text \<open>The refusal of displayResults: the message, and nothing else.\<close>

definition invalid_result_message :: "page \<Rightarrow> page" where
  "invalid_result_message s = showMessage ''Error: Invalid result data received'' Error s"

text \<open>\<open>n\<close> calls of setupAvatarAnimations, one after the other.\<close>

primrec initialize_times :: "nat \<Rightarrow> page \<Rightarrow> page" where
  "initialize_times 0 s = s"
| "initialize_times (Suc n) s = initialize_times n (snd (setupAvatarAnimations s))"

text \<open>
  The calls and frames of the animation, in the order in which they happen, and the
  sequences in which startSpeaking is only called while the speaking flag is off.
  \<open>speaking_after\<close> says whether the last of startSpeaking and stopSpeaking in the sequence
  was a startSpeaking.
\<close>

datatype speech_event = StartSpeaking | StopSpeaking | AnimationFrame

fun speech_step :: "speech_event \<Rightarrow> page \<Rightarrow> page" where
  "speech_step StartSpeaking s = snd (startSpeaking s)"
| "speech_step StopSpeaking s = stopSpeaking s"
| "speech_step AnimationFrame s = animation_frame s"

definition run_events :: "speech_event list \<Rightarrow> page \<Rightarrow> page" where
  "run_events es s = fold speech_step es s"

fun starts_only_when_stopped :: "bool \<Rightarrow> speech_event list \<Rightarrow> bool" where
  "starts_only_when_stopped speaking [] = True"
| "starts_only_when_stopped speaking (StartSpeaking # es) =
     (\<not> speaking \<and> starts_only_when_stopped True es)"
| "starts_only_when_stopped speaking (StopSpeaking # es) = starts_only_when_stopped False es"
| "starts_only_when_stopped speaking (AnimationFrame # es) =
     starts_only_when_stopped speaking es"

fun speaking_after :: "bool \<Rightarrow> speech_event list \<Rightarrow> bool" where
  "speaking_after speaking [] = speaking"
| "speaking_after speaking (StartSpeaking # es) = speaking_after True es"
| "speaking_after speaking (StopSpeaking # es) = speaking_after False es"
| "speaking_after speaking (AnimationFrame # es) = speaking_after speaking es"

text \<open>A canvas exists already, or the container in which to create one.\<close>

definition surface_available :: "page \<Rightarrow> bool" where
  "surface_available s =
     (case expressionCanvas s of
        Some c \<Rightarrow> True
      | None \<Rightarrow> (case avatarContainer s of Some r \<Rightarrow> True | None \<Rightarrow> False))"

text \<open>
  While speaking, exactly one callback is scheduled and \<open>animationFrame\<close> holds its handle;
  otherwise none is scheduled.
\<close>

definition frame_loop_tracked :: "page \<Rightarrow> bool" where
  "frame_loop_tracked s =
     (if isSpeaking s
      then (case rafQueue s of
              [e] \<Rightarrow> animationFrame s = Some (fst e) \<and> fst e \<noteq> 0
            | _ \<Rightarrow> False)
      else rafQueue s = [])"

text \<open>
  Vocabulary for the retries: the number of failures at the head of a list of answers, the
  analysis request of a page, the retry timer, the terminal message, and the page after
  one failure whose retry timer has fired.
\<close>

definition leading_failures :: "analysis_response list \<Rightarrow> nat" where
  "leading_failures rs = length (takeWhile (\<lambda>r. r = AnalysisFailed) rs)"

definition analysis_request :: "page \<Rightarrow> request" where
  "analysis_request s = AnalyzeInterviewRequest (candidateId s) (length (questions s))"

definition retry_timer :: task where
  "retry_timer = Timeout 5000 AnalysisRetry"

definition terminal_message :: "string \<times> message_type" where
  "terminal_message =
     (''Failed to analyze interview after multiple attempts. Please try again later.'', Error)"

definition retried :: "page \<Rightarrow> page" where
  "retried s = snd (run_task retry_timer (analysis_error s))"

section \<open>Properties\<close>

subsection \<open>Facts shared by the properties\<close>

lemmas page_defs = initial_page_def startInterview_def setupRecording_def startRecording_def
  recorder_start_def recorder_stop_def startCheatingDetection_def stopCheatingDetection_def
  speakQuestion_def startSpeaking_def setupAvatarAnimations_def setCanvasDimensions_def
  animateSpeech_def canvas_rect_def drawMouth_def clearCanvas_def paint_def
  requestAnimationFrame_def cancelAnimationFrame_def stopSpeaking_def
  media_captured_def nextQuestion_def stopRecording_def stopInterview_def
  analyzeInterviewResponses_def run_task_def recorder_stopped_def saveRecording_def
  showMessage_def addClass_def removeClass_def set_disabled_def set_content_def

text \<open>What stopSpeaking changes: the speaking flag, and nothing of what follows.\<close>

lemma stopSpeaking_fields:
  "\<not> isSpeaking (stopSpeaking s)"
  "mediaRecorder (stopSpeaking s) = mediaRecorder s"
  "recording (stopSpeaking s) = recording s"
  "recordedChunks (stopSpeaking s) = recordedChunks s"
  "tabFocusInterval (stopSpeaking s) = tabFocusInterval s"
  "intervals (stopSpeaking s) = intervals s"
  "tasks (stopSpeaking s) = tasks s"
  "statusMessages (stopSpeaking s) = statusMessages s"
  "requests (stopSpeaking s) = requests s"
  "candidateId (stopSpeaking s) = candidateId s"
  "questions (stopSpeaking s) = questions s"
  "content (stopSpeaking s) = content s"
  "audioSrc (stopSpeaking s) = audioSrc s"
  "audioPlaying (stopSpeaking s) = audioPlaying s"
  by (simp_all add: stopSpeaking_def removeClass_def clearCanvas_def cancelAnimationFrame_def
      Let_def split: option.splits)

text \<open>A frame that is drawn.\<close>

lemma drawMouth_speaking:
  assumes "isSpeaking s"
  shows "drawMouth l s =
     s\<lparr>document_canvases :=
         map (\<lambda>cv. if canvas_id cv = loop_canvas l then cv\<lparr>painted := mouth_paths l\<rparr> else cv)
           (document_canvases s),
       handleCounter := Suc (handleCounter s),
       rafQueue := rafQueue s @ [(Suc (handleCounter s), l\<lparr>frameCount := frameCount l + 1\<rparr>)],
       animationFrame := Some (Suc (handleCounter s))\<rparr>"
  using assms
  by (simp add: drawMouth_def clearCanvas_def paint_def requestAnimationFrame_def Let_def
      comp_def if_distrib cong: if_cong)

text \<open>With a surface available, startSpeaking schedules one callback, at intensity 0.8.\<close>

lemma startSpeaking_schedules:
  assumes "surface_available s"
  shows "\<exists>h l. h \<noteq> 0 \<and> loop_intensity l = 0.8
           \<and> fst (startSpeaking s) = None
           \<and> rafQueue (snd (startSpeaking s)) = rafQueue s @ [(h, l)]
           \<and> animationFrame (snd (startSpeaking s)) = Some h
           \<and> isSpeaking (snd (startSpeaking s))
           \<and> expressionCanvas (snd (startSpeaking s)) \<noteq> None
           \<and> avatarContainer (snd (startSpeaking s)) = avatarContainer s"
proof (cases "expressionCanvas s")
  case (Some c)
  then show ?thesis
    by (simp add: startSpeaking_def addClass_def animateSpeech_def drawMouth_def
        clearCanvas_def paint_def requestAnimationFrame_def Let_def case_prod_beta)
next
  case None
  with assms obtain r where r: "avatarContainer s = Some r"
    by (auto simp: surface_available_def split: option.splits)
  show ?thesis
    using None r
    by (simp add: startSpeaking_def addClass_def animateSpeech_def setupAvatarAnimations_def
        setCanvasDimensions_def drawMouth_def clearCanvas_def paint_def
        requestAnimationFrame_def Let_def case_prod_beta)
qed

lemma surface_available_kept:
  "expressionCanvas t = expressionCanvas s \<Longrightarrow> avatarContainer t = avatarContainer s \<Longrightarrow>
   surface_available s \<Longrightarrow> surface_available t"
  by (simp add: surface_available_def split: option.splits)

text \<open>What the animation leaves alone, and what speakQuestion does up to its request.\<close>

lemma setupAvatarAnimations_keeps:
  "requests (snd (setupAvatarAnimations s)) = requests s"
  "candidateId (snd (setupAvatarAnimations s)) = candidateId s"
  "audioSrc (snd (setupAvatarAnimations s)) = audioSrc s"
  "audioPlaying (snd (setupAvatarAnimations s)) = audioPlaying s"
  "content (snd (setupAvatarAnimations s)) = content s"
  "statusMessages (snd (setupAvatarAnimations s)) = statusMessages s"
  by (simp_all add: setupAvatarAnimations_def setCanvasDimensions_def Let_def case_prod_beta
      split: option.splits)

lemma drawMouth_keeps:
  "requests (drawMouth l s) = requests s"
  "candidateId (drawMouth l s) = candidateId s"
  "audioSrc (drawMouth l s) = audioSrc s"
  "audioPlaying (drawMouth l s) = audioPlaying s"
  "content (drawMouth l s) = content s"
  "statusMessages (drawMouth l s) = statusMessages s"
  by (simp_all add: drawMouth_def clearCanvas_def paint_def requestAnimationFrame_def Let_def
      case_prod_beta)

lemma startSpeaking_keeps:
  "requests (snd (startSpeaking s)) = requests s"
  "candidateId (snd (startSpeaking s)) = candidateId s"
  "audioSrc (snd (startSpeaking s)) = audioSrc s"
  "audioPlaying (snd (startSpeaking s)) = audioPlaying s"
  "content (snd (startSpeaking s)) = content s"
  "statusMessages (snd (startSpeaking s)) = statusMessages s"
proof -
  let ?s1 = "addClass ''#avatarContainer'' ''avatar-speaking'' (s\<lparr>isSpeaking := True\<rparr>)"
  obtain res t where su: "setupAvatarAnimations ?s1 = (res, t)"
    by (cases "setupAvatarAnimations ?s1") auto
  have t: "t = snd (setupAvatarAnimations ?s1)" by (simp add: su)
  have keep: "requests t = requests s" "candidateId t = candidateId s" "audioSrc t = audioSrc s"
    "audioPlaying t = audioPlaying s" "content t = content s"
    "statusMessages t = statusMessages s"
    unfolding t by (simp_all add: setupAvatarAnimations_keeps addClass_def)
  have keep1: "requests ?s1 = requests s" "candidateId ?s1 = candidateId s"
    "audioSrc ?s1 = audioSrc s" "audioPlaying ?s1 = audioPlaying s" "content ?s1 = content s"
    "statusMessages ?s1 = statusMessages s"
    by (simp_all add: addClass_def)
  show "requests (snd (startSpeaking s)) = requests s"
    "candidateId (snd (startSpeaking s)) = candidateId s"
    "audioSrc (snd (startSpeaking s)) = audioSrc s"
    "audioPlaying (snd (startSpeaking s)) = audioPlaying s"
    "content (snd (startSpeaking s)) = content s"
    "statusMessages (snd (startSpeaking s)) = statusMessages s"
    by (simp_all add: startSpeaking_def Let_def su keep keep1 drawMouth_keeps
        split: option.splits sum.splits)
qed

lemma speakQuestion_effect:
  assumes "surface_available s"
  shows "fst (speakQuestion q s) = None"
    and "isSpeaking (snd (speakQuestion q s))"
    and "map (\<lambda>e. loop_intensity (snd e)) (rafQueue (snd (speakQuestion q s)))
           = map (\<lambda>e. loop_intensity (snd e)) (rafQueue s) @ [0.8]"
    and "requests (snd (speakQuestion q s)) = requests s @ [SpeakQuestionRequest q (candidateId s)]"
    and "audioSrc (snd (speakQuestion q s)) = audioSrc s"
    and "audioPlaying (snd (speakQuestion q s)) = audioPlaying s"
    and "content (snd (speakQuestion q s)) ''#speechBubble'' = q"
    and "statusMessages (snd (speakQuestion q s)) = statusMessages s"
proof -
  let ?b = "set_content ''#speechBubble'' q s"
  have av: "surface_available ?b"
    using assms by (simp add: surface_available_def set_content_def split: option.splits)
  from startSpeaking_schedules[OF av] obtain h l where
    hl: "loop_intensity l = 0.8" "fst (startSpeaking ?b) = None"
      "rafQueue (snd (startSpeaking ?b)) = rafQueue ?b @ [(h, l)]"
      "isSpeaking (snd (startSpeaking ?b))" by blast
  obtain t where st: "startSpeaking ?b = (None, t)" using hl(2) by (cases "startSpeaking ?b") auto
  have eq: "speakQuestion q s = (None, t\<lparr>requests := requests t @
              [SpeakQuestionRequest q (candidateId t)]\<rparr>)"
    by (simp add: speakQuestion_def st)
  have t: "t = snd (startSpeaking ?b)" by (simp add: st)
  show "fst (speakQuestion q s) = None" by (simp add: eq)
  show "isSpeaking (snd (speakQuestion q s))" using hl(4) by (simp add: eq t)
  show "map (\<lambda>e. loop_intensity (snd e)) (rafQueue (snd (speakQuestion q s)))
           = map (\<lambda>e. loop_intensity (snd e)) (rafQueue s) @ [0.8]"
    using hl(1,3) by (simp add: eq t set_content_def)
  show "requests (snd (speakQuestion q s)) = requests s @ [SpeakQuestionRequest q (candidateId s)]"
    by (simp add: eq t startSpeaking_keeps set_content_def)
  show "audioSrc (snd (speakQuestion q s)) = audioSrc s"
    by (simp add: eq t startSpeaking_keeps set_content_def)
  show "audioPlaying (snd (speakQuestion q s)) = audioPlaying s"
    by (simp add: eq t startSpeaking_keeps set_content_def)
  show "content (snd (speakQuestion q s)) ''#speechBubble'' = q"
    by (simp add: eq t startSpeaking_keeps set_content_def)
  show "statusMessages (snd (speakQuestion q s)) = statusMessages s"
    by (simp add: eq t startSpeaking_keeps set_content_def)
qed

subsection \<open>Stopping without an active recording\<close>

lemma stopRecording_noop: "no_active_recorder s \<Longrightarrow> stopRecording s = s"
  by (simp add: no_active_recorder_def stopRecording_def split: option.splits)

lemma stopInterview_untouched:
  "no_active_recorder s \<Longrightarrow> recorder_untouched s (stopInterview s)"
  by (simp add: recorder_untouched_def stopInterview_def stopRecording_noop Let_def
      analyzeInterviewResponses_def set_content_def removeClass_def showMessage_def
      set_disabled_def error_messages_def stopSpeaking_fields)

lemma stopInterview_no_active:
  "no_active_recorder s \<Longrightarrow> no_active_recorder (stopInterview s)"
  using stopInterview_untouched[of s] by (simp add: recorder_untouched_def no_active_recorder_def)

lemma recorder_untouched_trans:
  "recorder_untouched s t \<Longrightarrow> recorder_untouched t u \<Longrightarrow> recorder_untouched s u"
  by (simp add: recorder_untouched_def)

lemma index_no_active:
  "no_active_recorder (s\<lparr>currentQuestionIndex := i\<rparr>) = no_active_recorder s"
  by (simp add: no_active_recorder_def)

lemma nextQuestion_untouched:
  assumes "no_active_recorder s"
  shows "recorder_untouched s (nextQuestion s)"
proof -
  let ?s2 = "s\<lparr>currentQuestionIndex := currentQuestionIndex s + 1\<rparr>"
  have a: "recorder_untouched s ?s2" by (simp add: recorder_untouched_def error_messages_def)
  have b: "recorder_untouched ?s2 (stopInterview ?s2)"
    using assms by (intro stopInterview_untouched) (simp add: index_no_active)
  show ?thesis
    using recorder_untouched_trans[OF a b] assms
    by (simp add: nextQuestion_def stopRecording_noop Let_def)
       (simp add: recorder_untouched_def set_content_def error_messages_def is_recorder_task_def)
qed

text \<open>
  Claim C10. When no recorder exists or the recorder is inactive, stopRecording changes
  nothing at all; nextQuestion and stopInterview, which call it first, leave the recorder,
  its queued events and the error messages as they were, and so does a second
  stopInterview after the first. None of the three can throw: they return a state only.
\<close>

theorem stopRecording_without_active_recorder:
  assumes "no_active_recorder s"
  shows "stopRecording s = s
         \<and> recorder_untouched s (nextQuestion s)
         \<and> recorder_untouched s (stopInterview s)
         \<and> recorder_untouched s (stopInterview (stopInterview s))"
proof -
  have "recorder_untouched (stopInterview s) (stopInterview (stopInterview s))"
    using assms by (intro stopInterview_untouched stopInterview_no_active)
  with assms show ?thesis
    by (auto intro: stopRecording_noop nextQuestion_untouched stopInterview_untouched
        recorder_untouched_trans)
qed

text \<open>
  On the loaded page no recorder exists: stopRecording leaves it as it is, and so do two
  calls of stopInterview as far as the recorder and the errors go.
\<close>

theorem stopRecording_without_active_recorder_witness:
  "no_active_recorder (initial_page ''candidate_1'' None)
   \<and> stopRecording (initial_page ''candidate_1'' None) = initial_page ''candidate_1'' None
   \<and> recorder_untouched (initial_page ''candidate_1'' None)
        (stopInterview (stopInterview (initial_page ''candidate_1'' None)))"
proof -
  have h: "no_active_recorder (initial_page ''candidate_1'' None)"
    by (simp add: no_active_recorder_def initial_page_def)
  show ?thesis
    using h stopRecording_without_active_recorder[OF h] by simp
qed

subsection \<open>The fallback question parser\<close>

lemma numbered_line_nonempty: "numbered_line l \<Longrightarrow> l \<noteq> []"
  by (auto simp: numbered_line_def)

lemma accumulate_nonempty: "q \<noteq> [] \<Longrightarrow> accumulate q ls \<noteq> []"
  unfolding accumulate_def by (induction ls arbitrary: q) auto

lemma accumulate_lead_nonempty: "ls \<noteq> [] \<Longrightarrow> accumulate q ls \<noteq> []"
proof (cases ls)
  case Nil
  assume "ls \<noteq> []"
  with Nil show ?thesis by simp
next
  case (Cons a list)
  have "accumulate (q @ '' '' @ a) list \<noteq> []" by (rule accumulate_nonempty) simp
  then show ?thesis using Cons by (simp add: accumulate_def)
qed

lemma question_loop_nonnumbered:
  "\<forall>l \<in> set pre. \<not> numbered_line l \<Longrightarrow>
   question_loop acc cur (pre @ rest) = question_loop acc (accumulate cur pre) rest"
  unfolding accumulate_def by (induction pre arbitrary: cur) auto

lemma question_loop_split:
  "question_loop acc cur ls =
   question_loop acc (accumulate cur (takeWhile (\<lambda>x. \<not> numbered_line x) ls))
     (dropWhile (\<lambda>x. \<not> numbered_line x) ls)"
proof -
  have "\<forall>l \<in> set (takeWhile (\<lambda>x. \<not> numbered_line x) ls). \<not> numbered_line l"
    by (auto dest: set_takeWhileD)
  from question_loop_nonnumbered[OF this, of acc cur "dropWhile (\<lambda>x. \<not> numbered_line x) ls"]
  show ?thesis by simp
qed

lemma finish_question_loop:
  "cur \<noteq> [] \<Longrightarrow>
   finish (question_loop acc cur ls) =
   acc @ js_trim (accumulate cur (takeWhile (\<lambda>x. \<not> numbered_line x) ls))
       # numbered_questions (dropWhile (\<lambda>x. \<not> numbered_line x) ls)"
proof (induction "length ls" arbitrary: acc cur ls rule: less_induct)
  case less
  let ?nn = "\<lambda>x. \<not> numbered_line x"
  define cur' where "cur' = accumulate cur (takeWhile ?nn ls)"
  define rest where "rest = dropWhile ?nn ls"
  have cur': "cur' \<noteq> []" unfolding cur'_def using less.prems by (rule accumulate_nonempty)
  have eq: "question_loop acc cur ls = question_loop acc cur' rest"
    unfolding cur'_def rest_def by (rule question_loop_split)
  show ?case
  proof (cases rest)
    case Nil
    have "finish (question_loop acc cur ls) = acc @ js_trim cur' # numbered_questions rest"
      unfolding eq Nil using cur' by (simp add: finish_def)
    then show ?thesis
      unfolding cur'_def rest_def .
  next
    case (Cons l tail)
    have num: "numbered_line l"
      using Cons hd_dropWhile[of ?nn ls] unfolding rest_def by auto
    have len: "length tail < length ls"
      using length_dropWhile_le[of ?nn ls] Cons unfolding rest_def by simp
    have "finish (question_loop acc cur ls) = finish (question_loop (acc @ [js_trim cur']) l tail)"
      unfolding eq Cons using cur' num by simp
    also have "\<dots> = (acc @ [js_trim cur']) @ js_trim (accumulate l (takeWhile ?nn tail))
                 # numbered_questions (dropWhile ?nn tail)"
      using numbered_line_nonempty[OF num] by (rule less.hyps[OF len])
    also have "\<dots> = acc @ js_trim cur' # numbered_questions rest"
      unfolding Cons by simp
    finally show ?thesis unfolding cur'_def rest_def .
  qed
qed

lemma dropWhile_not_numbered_head:
  "takeWhile (\<lambda>x. \<not> numbered_line x) (dropWhile (\<lambda>x. \<not> numbered_line x) ls) = []"
  by (induction ls) auto

lemma fallback_parse_eq: "fallback_parse text = lead_fallback_rule text"
proof -
  let ?nn = "\<lambda>x. \<not> numbered_line x"
  define ls where "ls = filter (\<lambda>l. js_trim l \<noteq> []) (js_split [newline] text)"
  define lead where "lead = takeWhile ?nn ls"
  define rest where "rest = dropWhile ?nn ls"
  have split: "question_loop [] [] ls = question_loop [] (accumulate [] lead) rest"
    unfolding lead_def rest_def by (rule question_loop_split)
  have rest_take: "takeWhile ?nn rest = []"
    unfolding rest_def by (rule dropWhile_not_numbered_head)
  then have rest_drop: "dropWhile ?nn rest = rest"
    using takeWhile_dropWhile_id[of ?nn rest] by simp
  have fin: "finish (question_loop [] [] ls) =
      (if lead = [] then [] else [js_trim (accumulate [] lead)]) @ numbered_questions rest"
  proof (cases "lead = []")
    case True
    then have acc0: "accumulate [] lead = []" by (simp add: accumulate_def)
    show ?thesis
    proof (cases rest)
      case Nil
      show ?thesis unfolding split acc0 Nil using True by (simp add: finish_def)
    next
      case (Cons l tail)
      have num: "numbered_line l"
        using Cons hd_dropWhile[of ?nn ls] unfolding rest_def by auto
      have "finish (question_loop [] [] ls) = finish (question_loop [] l tail)"
        unfolding split acc0 Cons using num by simp
      also have "\<dots> = [] @ js_trim (accumulate l (takeWhile ?nn tail))
                  # numbered_questions (dropWhile ?nn tail)"
        using numbered_line_nonempty[OF num] by (rule finish_question_loop)
      finally show ?thesis using True Cons by simp
    qed
  next
    case False
    then have "accumulate [] lead \<noteq> []" by (rule accumulate_lead_nonempty)
    then have "finish (question_loop [] (accumulate [] lead) rest) =
        [] @ js_trim (accumulate (accumulate [] lead) (takeWhile ?nn rest))
           # numbered_questions (dropWhile ?nn rest)"
      by (rule finish_question_loop)
    then show ?thesis
      unfolding split rest_take rest_drop using False by (simp add: accumulate_def)
  qed
  have "fallback_parse text =
      (let qs = finish (question_loop [] [] ls)
       in if qs = [] then filter (\<lambda>p. js_trim p \<noteq> []) (js_split [newline, newline] text) else qs)"
    unfolding fallback_parse_def ls_def finish_def Let_def
    by (simp add: case_prod_beta)
  also have "\<dots> =
      (let qs = (if lead = [] then [] else [js_trim (accumulate [] lead)]) @ numbered_questions rest
       in if qs = [] then filter (\<lambda>p. js_trim p \<noteq> []) (js_split [newline, newline] text) else qs)"
    by (simp only: fin)
  also have "\<dots> = lead_fallback_rule text"
    unfolding lead_fallback_rule_def nonblank_lines_def lead_def rest_def ls_def
    by (simp only: Let_def)
  finally show ?thesis .
qed

lemma js_trim_idem: "js_trim (js_trim s) = js_trim s"
proof -
  let ?d = "dropWhile is_js_whitespace"
  define t where "t = ?d s"
  define u where "u = rev (?d (rev t))"
  have t: "t = [] \<or> \<not> is_js_whitespace (hd t)"
    unfolding t_def using hd_dropWhile[of is_js_whitespace s] by blast
  have "rev t = takeWhile is_js_whitespace (rev t) @ ?d (rev t)" by simp
  then have "t = u @ rev (takeWhile is_js_whitespace (rev t))"
    unfolding u_def by (metis rev_append rev_rev_ident)
  then have hd_u: "u \<noteq> [] \<Longrightarrow> hd u = hd t" by (metis hd_append2)
  have u_nil: "t = [] \<Longrightarrow> u = []" unfolding u_def by simp
  have "u = [] \<or> \<not> is_js_whitespace (hd u)" using t hd_u u_nil by metis
  then have du: "?d u = u" by (simp add: dropWhile_eq_self_iff)
  have "?d (rev u) = rev u"
    unfolding u_def by (simp add: dropWhile_eq_self_iff)
  then have "rev (?d (rev (?d u))) = u" using du by simp
  then show ?thesis unfolding js_trim_def u_def t_def .
qed

lemma dropWhile_all: "list_all P s \<Longrightarrow> dropWhile P s = []"
  by (induction s) auto

lemma whitespace_trim: "list_all is_js_whitespace s \<Longrightarrow> js_trim s = []"
  by (simp add: js_trim_def dropWhile_all)

lemma trim_nil_whitespace:
  assumes "js_trim s = []"
  shows "list_all is_js_whitespace s"
proof -
  let ?d = "dropWhile is_js_whitespace"
  have "?d (rev (?d s)) = []" using assms by (simp add: js_trim_def)
  then have all: "\<forall>x \<in> set (?d s). is_js_whitespace x"
    by (simp add: dropWhile_eq_Nil_conv)
  have "?d s = []"
  proof (rule ccontr)
    assume ne: "?d s \<noteq> []"
    then have "\<not> is_js_whitespace (hd (?d s))" by (rule hd_dropWhile)
    moreover have "hd (?d s) \<in> set (?d s)" using ne by simp
    ultimately show False using all by blast
  qed
  then show ?thesis by (simp add: dropWhile_eq_Nil_conv list_all_iff)
qed

lemma js_split_from_chars:
  "sep \<noteq> [] \<Longrightarrow> p \<in> set (js_split_from sep cur s) \<Longrightarrow> set p \<subseteq> set cur \<union> set s"
proof (induction sep cur s rule: js_split_from.induct)
  case (1 sep cur s)
  note unf = js_split_from.simps[of sep cur s]
  show ?case
  proof (cases "s = []")
    case True
    with "1.prems" show ?thesis by (simp add: unf)
  next
    case False
    show ?thesis
    proof (cases "prefix sep s")
      case True
      have sub: "set (drop (length sep) s) \<subseteq> set s" by (rule set_drop_subset)
      from "1.prems" True False
      have "p = cur \<or> p \<in> set (js_split_from sep [] (drop (length sep) s))"
        by (simp add: unf)
      then show ?thesis
      proof
        assume "p = cur" then show ?thesis by auto
      next
        assume "p \<in> set (js_split_from sep [] (drop (length sep) s))"
        from "1.IH"(1)[OF "1.prems"(1) False True "1.prems"(1) this] sub
        show ?thesis by auto
      qed
    next
      case nopre: False
      have sub: "set (tl s) \<subseteq> set s" "hd s \<in> set s" using False by (auto simp: list.set_sel)
      from "1.prems" nopre False
      have "p \<in> set (js_split_from sep (cur @ [hd s]) (tl s))"
        by (simp add: unf)
      from "1.IH"(2)[OF "1.prems"(1) False nopre "1.prems"(1) this] sub
      show ?thesis by auto
    qed
  qed
qed

lemma js_split_from_covers:
  "sep = [c] \<Longrightarrow> x \<in> set cur \<union> set s \<Longrightarrow> x \<noteq> c \<Longrightarrow>
   \<exists>p \<in> set (js_split_from sep cur s). x \<in> set p"
proof (induction sep cur s rule: js_split_from.induct)
  case (1 sep cur s)
  note unf = js_split_from.simps[of sep cur s]
  have sep: "sep \<noteq> []" using "1.prems" by simp
  show ?case
  proof (cases "s = []")
    case True
    with "1.prems" show ?thesis by (simp add: unf)
  next
    case False
    then obtain a s' where s: "s = a # s'" by (cases s) auto
    show ?thesis
    proof (cases "prefix sep s")
      case True
      then have a: "a = c" and dr: "drop (length sep) s = s'" using "1.prems"(1) s by auto
      show ?thesis
      proof (cases "x \<in> set cur")
        case True
        then show ?thesis using \<open>prefix sep s\<close> False sep by (simp add: unf)
      next
        case xs: False
        then have "x \<in> set [] \<union> set (drop (length sep) s)" using "1.prems" s a dr by auto
        from "1.IH"(1)[OF sep False True "1.prems"(1) this "1.prems"(3)]
        show ?thesis using True False sep by (simp add: unf)
      qed
    next
      case nopre: False
      have "x \<in> set (cur @ [hd s]) \<union> set (tl s)" using "1.prems" s by auto
      from "1.IH"(2)[OF sep False nopre "1.prems"(1) this "1.prems"(3)]
      show ?thesis using nopre False sep by (simp add: unf)
    qed
  qed
qed

lemma newline_whitespace: "is_js_whitespace newline"
  by (simp add: is_js_whitespace_def newline_def)

lemma no_lines_all_whitespace:
  assumes "filter (\<lambda>l. js_trim l \<noteq> []) (js_split [newline] text) = []"
  shows "list_all is_js_whitespace text"
proof -
  have "is_js_whitespace x" if x: "x \<in> set text" for x
  proof (cases "x = newline")
    case True
    then show ?thesis by (simp add: newline_whitespace)
  next
    case False
    have "x \<in> set [] \<union> set text" using x by simp
    from js_split_from_covers[OF refl this False]
    obtain p where p: "p \<in> set (js_split [newline] text)" and xp: "x \<in> set p"
      unfolding js_split_def by blast
    have "js_trim p = []"
    proof (rule ccontr)
      assume "js_trim p \<noteq> []"
      with p have "p \<in> set (filter (\<lambda>l. js_trim l \<noteq> []) (js_split [newline] text))" by simp
      with assms show False by simp
    qed
    then have "list_all is_js_whitespace p" by (rule trim_nil_whitespace)
    with xp show ?thesis by (simp add: list_all_iff)
  qed
  then show ?thesis by (simp add: list_all_iff)
qed

lemma whitespace_text_no_paragraphs:
  assumes "list_all is_js_whitespace text" and "sep \<noteq> []"
  shows "filter (\<lambda>p. js_trim p \<noteq> []) (js_split sep text) = []"
proof -
  have "js_trim p = []" if p: "p \<in> set (js_split sep text)" for p
  proof -
    have "set p \<subseteq> set [] \<union> set text"
      using p unfolding js_split_def by (rule js_split_from_chars[OF assms(2)])
    with assms(1) have "list_all is_js_whitespace p" by (auto simp: list_all_iff)
    then show ?thesis by (rule whitespace_trim)
  qed
  then show ?thesis by (simp add: filter_empty_conv)
qed

lemma numbered_questions_nonempty: "ls \<noteq> [] \<Longrightarrow> numbered_questions ls \<noteq> []"
  by (cases ls) simp_all

lemma numbered_questions_trimmed: "list_all (\<lambda>q. js_trim q = q) (numbered_questions ls)"
  by (induction ls rule: numbered_questions.induct) (simp_all add: js_trim_idem)

text \<open>
  The split on blank lines is reached only by a text with no line that is not blank, and
  then it finds nothing: the parser's result is the runs alone.
\<close>

lemma lead_fallback_rule_runs:
  "lead_fallback_rule text =
     (let ls = nonblank_lines text;
          lead = takeWhile (\<lambda>x. \<not> numbered_line x) ls
      in (if lead = [] then [] else [js_trim (accumulate [] lead)])
         @ numbered_questions (dropWhile (\<lambda>x. \<not> numbered_line x) ls))"
proof -
  define ls where "ls = filter (\<lambda>l. js_trim l \<noteq> []) (js_split [newline] text)"
  define lead where "lead = takeWhile (\<lambda>x. \<not> numbered_line x) ls"
  define rest where "rest = dropWhile (\<lambda>x. \<not> numbered_line x) ls"
  define qs where "qs = (if lead = [] then [] else [js_trim (accumulate [] lead)])
                        @ numbered_questions rest"
  have eq: "lead_fallback_rule text =
      (if qs = [] then filter (\<lambda>p. js_trim p \<noteq> []) (js_split [newline, newline] text) else qs)"
    unfolding lead_fallback_rule_def nonblank_lines_def qs_def lead_def rest_def ls_def
    by (simp only: Let_def)
  have "filter (\<lambda>p. js_trim p \<noteq> []) (js_split [newline, newline] text) = []" if "qs = []"
  proof -
    from that have "lead = []" and "rest = []"
      unfolding qs_def using numbered_questions_nonempty[of rest] by (auto split: if_splits)
    moreover have "ls = lead @ rest"
      unfolding lead_def rest_def by (simp only: takeWhile_dropWhile_id)
    ultimately have "ls = []" by simp
    then have "list_all is_js_whitespace text"
      unfolding ls_def by (rule no_lines_all_whitespace)
    then show ?thesis by (rule whitespace_text_no_paragraphs) simp
  qed
  then have "lead_fallback_rule text = qs" unfolding eq by auto
  then show ?thesis
    unfolding qs_def lead_def rest_def ls_def nonblank_lines_def by (simp only: Let_def)
qed

lemma lead_fallback_rule_trimmed:
  "list_all (\<lambda>q. js_trim q = q) (lead_fallback_rule text)"
  unfolding lead_fallback_rule_runs Let_def
  by (simp add: numbered_questions_trimmed js_trim_idem)

lemma lead_rule_empty_iff: "(lead_fallback_rule text = []) = (nonblank_lines text = [])"
proof -
  let ?nn = "\<lambda>x. \<not> numbered_line x"
  have split: "nonblank_lines text = takeWhile ?nn (nonblank_lines text)
                 @ dropWhile ?nn (nonblank_lines text)"
    by (simp only: takeWhile_dropWhile_id)
  show ?thesis
  proof
    assume "lead_fallback_rule text = []"
    then have "takeWhile ?nn (nonblank_lines text) = []"
      and "numbered_questions (dropWhile ?nn (nonblank_lines text)) = []"
      unfolding lead_fallback_rule_runs Let_def nonblank_lines_def
      by (auto split: if_splits)
    then have "takeWhile ?nn (nonblank_lines text) = []"
      and "dropWhile ?nn (nonblank_lines text) = []"
      using numbered_questions_nonempty by blast+
    with split show "nonblank_lines text = []" by simp
  next
    assume "nonblank_lines text = []"
    then show "lead_fallback_rule text = []"
      unfolding lead_fallback_rule_runs Let_def nonblank_lines_def by simp
  qed
qed

lemma stated_rule_without_lead:
  assumes "takeWhile (\<lambda>x. \<not> numbered_line x) (nonblank_lines text) = []"
  shows "lead_fallback_rule text = stated_fallback_rule text"
  using assms
  unfolding lead_fallback_rule_def stated_fallback_rule_def nonblank_lines_def Let_def
  by simp

text \<open>
  What the success callback of startSetup computes for a response whose \<open>question_list\<close>
  is absent or empty. Since the \<open>else\<close> branch of the loop (line 305) accumulates lines
  also before any numbered line was seen, every line that is not blank ends up in a
  question, and no question results only when the text has no such line: the split on
  blank lines of lines 313 to 315 then finds nothing (lemma \<open>lead_fallback_rule_runs\<close>).
  When no line stands before the first matching line, the result is that of the rule as
  the specification states it, as for the text of the specification's example.
\<close>

lemma parse_questions_computes:
  assumes "question_list response = None \<or> question_list response = Some []"
    and "questions_text response = Some text"
  shows "parse_questions response = Inr (lead_fallback_rule text)
         \<and> list_all (\<lambda>q. js_trim q = q) (lead_fallback_rule text)
         \<and> (lead_fallback_rule text = []) = (nonblank_lines text = [])
         \<and> (takeWhile (\<lambda>x. \<not> numbered_line x) (nonblank_lines text) = []
              \<longrightarrow> lead_fallback_rule text = stated_fallback_rule text)"
proof -
  have "parse_questions response = Inr (lead_fallback_rule text)"
    using assms by (auto simp: parse_questions_def fallback_parse_eq)
  then show ?thesis
    using lead_fallback_rule_trimmed lead_rule_empty_iff stated_rule_without_lead by blast
qed

lemma parse_questions_numbered_example:
  "parse_questions
     \<lparr>questions_text =
        Some (''1. Tell me about yourself'' @ [newline] @ ''2. Describe a challenge you solved''),
      question_list = Some []\<rparr>
   = Inr [''1. Tell me about yourself'', ''2. Describe a challenge you solved'']"
proof -
  have "fallback_parse (''1. Tell me about yourself'' @ [newline]
                        @ ''2. Describe a challenge you solved'')
        = [''1. Tell me about yourself'', ''2. Describe a challenge you solved'']"
    by code_simp
  then show ?thesis by (simp add: parse_questions_def)
qed

text \<open>
  Claim C2, where the code departs from it. The service answers with an empty
  \<open>question_list\<close> and a text of two paragraphs, none of them numbered. No line starts a
  question, so the rule of the claim splits the text on the blank line into two questions.
  The code does not reach its split on blank lines: the success callback returns, and
  stores in \<open>allQuestions\<close>, one question, the two lines joined by a space.
\<close>

theorem unnumbered_paragraphs_become_one_question:
  "parse_questions
     \<lparr>questions_text = Some (''Tell me about yourself'' @ [newline, newline]
                             @ ''Describe a challenge you solved''),
      question_list = Some []\<rparr>
     = Inr [''Tell me about yourself Describe a challenge you solved'']
   \<and> allQuestions (snd (setup_success
        \<lparr>questions_text = Some (''Tell me about yourself'' @ [newline, newline]
                                @ ''Describe a challenge you solved''),
         question_list = Some []\<rparr>
        (media_granted ''Backend Engineer''
          (startSetup ''Backend Engineer'' (initial_page ''candidate_1'' None)))))
     = [''Tell me about yourself Describe a challenge you solved'']
   \<and> stated_fallback_rule (''Tell me about yourself'' @ [newline, newline]
                             @ ''Describe a challenge you solved'')
     = [''Tell me about yourself'', ''Describe a challenge you solved'']"
proof -
  have "fallback_parse (''Tell me about yourself'' @ [newline, newline]
                           @ ''Describe a challenge you solved'')
           = [''Tell me about yourself Describe a challenge you solved'']"
    by code_simp
  then have a: "parse_questions
     \<lparr>questions_text = Some (''Tell me about yourself'' @ [newline, newline]
                             @ ''Describe a challenge you solved''),
      question_list = Some []\<rparr>
     = Inr [''Tell me about yourself Describe a challenge you solved'']"
    by (simp add: parse_questions_def)
  have b: "stated_fallback_rule (''Tell me about yourself'' @ [newline, newline]
                             @ ''Describe a challenge you solved'')
     = [''Tell me about yourself'', ''Describe a challenge you solved'']"
    by code_simp
  have c: "allQuestions (snd (setup_success
        \<lparr>questions_text = Some (''Tell me about yourself'' @ [newline, newline]
                                @ ''Describe a challenge you solved''),
         question_list = Some []\<rparr>
        (media_granted ''Backend Engineer''
          (startSetup ''Backend Engineer'' (initial_page ''candidate_1'' None)))))
     = [''Tell me about yourself Describe a challenge you solved'']"
    unfolding setup_success_def a
    by (simp add: displayQuestions_def set_content_def addClass_def removeClass_def)
  show ?thesis using a b c by blast
qed

subsection \<open>The drawn frame\<close>

lemma mouthHeight_formula:
  "mouthHeight l =
     mouthBaseHeight l + 3 * mouthBaseHeight l
       * (sin (real (frameCount l) * 0.3) * loop_intensity l + loop_intensity l)"
  by (simp add: mouthHeight_def Let_def)

lemma drawMouth_silent:
  assumes "\<not> isSpeaking s"
  shows "drawMouth l s = clearCanvas (loop_canvas l) s"
  using assms by (simp add: drawMouth_def clearCanvas_def Let_def)

text \<open>
  Claim C9. The mouth height of the frame that the closure \<open>l\<close> draws is its base height
  plus three times the base times \<open>sin(frameCount * 0.3) * intensity + intensity\<close>; the
  paths painted on the canvas use that height; and the closure that is scheduled for the
  next frame has counted exactly one frame more. When the speaking flag is off the frame
  is not drawn: the canvas is cleared and nothing is scheduled or counted. (JavaScript
  numbers are taken as real numbers, the frame counter as a natural number.)
\<close>

theorem mouth_height_per_frame:
  "(let mh = mouthBaseHeight l + 3 * mouthBaseHeight l
               * (sin (real (frameCount l) * 0.3) * loop_intensity l + loop_intensity l);
        x = mouthX l; y = mouthY l; w = mouthWidth l
    in mouthHeight l = mh
       \<and> document_canvases (drawMouth l s) =
           map (\<lambda>cv. if canvas_id cv = loop_canvas l
                      then cv\<lparr>painted :=
                        (if isSpeaking s then
                           [Filled ''rgba(180, 90, 90, 0.85)''
                              [MoveTo (x - w / 2) y,
                               BezierCurveTo (x - w / 4) (y - mh / 2) (x + w / 4) (y - mh / 2)
                                 (x + w / 2) y,
                               BezierCurveTo (x + w / 4) (y + mh / 2) (x - w / 4) (y + mh / 2)
                                 (x - w / 2) y],
                            Filled ''rgba(100, 40, 40, 0.8)''
                              [Ellipse x y (w * 0.7 / 2) (mh * 0.7 / 2) 0 0 (pi * 2)]]
                         else [])\<rparr>
                      else cv)
             (document_canvases s)
       \<and> rafQueue (drawMouth l s) =
           (if isSpeaking s
            then rafQueue s @ [(Suc (handleCounter s), l\<lparr>frameCount := frameCount l + 1\<rparr>)]
            else rafQueue s))"
proof (cases "isSpeaking s")
  case True
  show ?thesis
    unfolding Let_def drawMouth_speaking[OF True] mouthHeight_formula[symmetric]
    using True by (simp add: mouth_paths_def Let_def)
next
  case False
  show ?thesis
    unfolding Let_def drawMouth_silent[OF False] mouthHeight_formula[symmetric]
    using False by (simp add: clearCanvas_def)
qed

subsection \<open>Starting the interview\<close>

lemma setup_keeps_questions:
  "questions (startSetup role s) = questions s"
  "questions (media_granted role s) = questions s"
  "questions (snd (setup_success response s)) = questions s"
  "currentQuestionIndex (startSetup role s) = currentQuestionIndex s"
  "currentQuestionIndex (media_granted role s) = currentQuestionIndex s"
  "currentQuestionIndex (snd (setup_success response s)) = currentQuestionIndex s"
  by (simp_all add: startSetup_def media_granted_def setup_success_def showMessage_def
      displayQuestions_def set_content_def addClass_def removeClass_def split: sum.splits)

text \<open>
  The guard of startInterview, and what startInterview does when the guard lets it pass:
  with a stream, a supported recorder and a drawing surface it starts the recording and
  speaks the current question.
\<close>

lemma setupRecording_ready:
  assumes "stream s" and "mimeTypeSupported s"
  shows "setupRecording s =
           s\<lparr>mediaRecorder := Some \<lparr>rec_state = Inactive, rec_data = []\<rparr>, recordedChunks := []\<rparr>"
  using assms by (simp add: setupRecording_def)

lemma startInterview_guard:
  "currentQuestionIndex s \<ge> length (questions s) \<Longrightarrow>
   startInterview s = (None, showMessage ''No more questions available'' Error s)"
  by (simp add: startInterview_def)

lemma startSpeaking_keeps_recorder:
  "mediaRecorder (snd (startSpeaking s)) = mediaRecorder s"
  "recording (snd (startSpeaking s)) = recording s"
proof -
  let ?s1 = "addClass ''#avatarContainer'' ''avatar-speaking'' (s\<lparr>isSpeaking := True\<rparr>)"
  obtain res t where su: "setupAvatarAnimations ?s1 = (res, t)"
    by (cases "setupAvatarAnimations ?s1") auto
  have t: "t = snd (setupAvatarAnimations ?s1)" by (simp add: su)
  have keep: "mediaRecorder t = mediaRecorder s" "recording t = recording s"
    unfolding t
    by (simp_all add: setupAvatarAnimations_def setCanvasDimensions_def Let_def case_prod_beta
        addClass_def split: option.splits)
  have keep1: "mediaRecorder ?s1 = mediaRecorder s" "recording ?s1 = recording s"
    by (simp_all add: addClass_def)
  have dm: "mediaRecorder (drawMouth l u) = mediaRecorder u"
    "recording (drawMouth l u) = recording u" for l u
    by (simp_all add: drawMouth_def clearCanvas_def paint_def requestAnimationFrame_def Let_def
        case_prod_beta)
  show "mediaRecorder (snd (startSpeaking s)) = mediaRecorder s"
    "recording (snd (startSpeaking s)) = recording s"
    by (simp_all add: startSpeaking_def Let_def su keep keep1 dm
        split: option.splits sum.splits)
qed

lemma startInterview_begins_cycle:
  assumes "currentQuestionIndex s < length (questions s)"
    and "stream s" and "mimeTypeSupported s" and "surface_available s"
  shows "fst (startInterview s) = None
         \<and> mediaRecorder (snd (startInterview s)) = Some \<lparr>rec_state = Recording, rec_data = []\<rparr>
         \<and> recording (snd (startInterview s))
         \<and> isSpeaking (snd (startInterview s))
         \<and> requests (snd (startInterview s))
             = requests s @ [SpeakQuestionRequest (questions s ! currentQuestionIndex s)
                               (candidateId s)]
         \<and> statusMessages (snd (startInterview s)) = statusMessages s"
proof -
  define s3 where "s3 = startRecording
     (set_disabled ''#stopBtn'' False
        (set_disabled ''#nextBtn'' False (set_disabled ''#startBtn'' True (setupRecording s))))"
  have s3: "mediaRecorder s3 = Some \<lparr>rec_state = Recording, rec_data = []\<rparr>" "recording s3"
    "requests s3 = requests s" "candidateId s3 = candidateId s" "questions s3 = questions s"
    "currentQuestionIndex s3 = currentQuestionIndex s" "statusMessages s3 = statusMessages s"
    "expressionCanvas s3 = expressionCanvas s" "avatarContainer s3 = avatarContainer s"
    unfolding s3_def
    by (simp_all add: setupRecording_ready[OF assms(2,3)] startRecording_def recorder_start_def
        startCheatingDetection_def set_disabled_def set_content_def addClass_def Let_def)
  have av: "surface_available s3"
    using s3(8,9) assms(4) by (rule surface_available_kept)
  have "startInterview s = speakQuestion (questions s3 ! currentQuestionIndex s3) s3"
    unfolding startInterview_def s3_def Let_def using assms(1) by (simp only: not_le[symmetric] if_False)
  then have eq: "startInterview s = speakQuestion (questions s ! currentQuestionIndex s) s3"
    by (simp only: s3(5,6))
  obtain e t where st: "startSpeaking (set_content ''#speechBubble''
      (questions s ! currentQuestionIndex s) s3) = (e, t)"
    by (cases "startSpeaking (set_content ''#speechBubble''
      (questions s ! currentQuestionIndex s) s3)") auto
  have t: "t = snd (startSpeaking (set_content ''#speechBubble''
      (questions s ! currentQuestionIndex s) s3))" by (simp add: st)
  have keep: "mediaRecorder (snd (speakQuestion (questions s ! currentQuestionIndex s) s3))
               = mediaRecorder s3"
    "recording (snd (speakQuestion (questions s ! currentQuestionIndex s) s3)) = recording s3"
    by (simp_all add: speakQuestion_def st split: option.splits)
       (simp_all add: t startSpeaking_keeps_recorder set_content_def)
  show ?thesis
    using speakQuestion_effect[OF av, of "questions s ! currentQuestionIndex s"]
    by (simp add: eq keep s3)
qed

text \<open>
  Claim C1, where the code departs from it. Setup fills \<open>allQuestions\<close> and never
  \<open>questions\<close>, the array that startInterview's guard reads. So after any completed setup
  from the loaded page, whatever the question service answered, \<open>questions\<close> is empty, the
  index 0 is not below its length, and startInterview shows "No more questions available"
  and does nothing else; this holds in particular when the fetched list is not empty.
\<close>

theorem startInterview_after_setup_fails:
  "(let s1 = snd (setup_success response
                   (media_granted role (startSetup role (initial_page cid container))))
    in questions s1 = [] \<and> currentQuestionIndex s1 = 0
       \<and> startInterview s1 = (None, showMessage ''No more questions available'' Error s1))
   \<and> allQuestions (snd (setup_success
        \<lparr>questions_text = Some ''1. Tell me about yourself'',
         question_list = Some [''Tell me about yourself'']\<rparr>
        (media_granted ''Backend Engineer''
          (startSetup ''Backend Engineer'' (initial_page cid container)))))
       = [''Tell me about yourself'']"
proof -
  have "questions (initial_page cid container) = []"
    "currentQuestionIndex (initial_page cid container) = 0"
    by (simp_all add: initial_page_def)
  then have "(let s1 = snd (setup_success response
                   (media_granted role (startSetup role (initial_page cid container))))
    in questions s1 = [] \<and> currentQuestionIndex s1 = 0
       \<and> startInterview s1 = (None, showMessage ''No more questions available'' Error s1))"
    by (simp add: Let_def setup_keeps_questions startInterview_def)
  moreover have "allQuestions (snd (setup_success
        \<lparr>questions_text = Some ''1. Tell me about yourself'',
         question_list = Some [''Tell me about yourself'']\<rparr>
        (media_granted ''Backend Engineer''
          (startSetup ''Backend Engineer'' (initial_page cid container)))))
       = [''Tell me about yourself'']"
    by (simp add: setup_success_def parse_questions_def displayQuestions_def set_content_def
        addClass_def removeClass_def)
  ultimately show ?thesis by blast
qed

subsection \<open>Rendering a malformed result\<close>

lemma displayResults_refuses_missing_assessment:
  "overall_assessment d = None \<Longrightarrow>
   displayResults (Some d) s = (None, invalid_result_message s)"
  by (simp add: displayResults_def invalid_result_message_def)

lemma displayResults_refuses_missing_question_assessments:
  "question_assessments d = None \<Longrightarrow>
   displayResults (Some d) s = (None, invalid_result_message s)"
  by (simp add: displayResults_def invalid_result_message_def split: option.splits)

lemma displayResults_throws_on_missing_strengths:
  "overall_assessment d = Some a \<Longrightarrow> a \<noteq> [] \<Longrightarrow> question_assessments d = Some qs \<Longrightarrow>
   strengths d = None \<Longrightarrow>
   displayResults (Some d) s
     = (Some TypeError,
        removeClass ''#resultsContainer'' ''hidden'' (addClass ''#interviewContainer'' ''hidden'' s))"
  by (simp add: displayResults_def Let_def)

text \<open>
  Claim C7, where the code departs from it. A payload without \<open>overall_assessment\<close> or
  without \<open>question_assessments\<close> is refused with the message and nothing else (the two
  lemmas above). A payload that lacks \<open>strengths\<close> passes the check: displayResults hides
  the interview container, reveals the results container and then throws a TypeError,
  with no message shown.
\<close>

theorem displayResults_missing_strengths_throws:
  "displayResults
     (Some \<lparr>overall_assessment = Some ''Good'', overall_score = Some 7,
            question_assessments = Some [], strengths = None,
            areas_for_improvement = Some [], recommended_resources = Some []\<rparr>)
     (addClass ''#resultsContainer'' ''hidden'' (initial_page ''candidate_1'' None))
   = (Some TypeError,
      (initial_page ''candidate_1'' None)
        \<lparr>css_classes := {(''#interviewContainer'', ''hidden'')}\<rparr>)"
  by (auto simp add: displayResults_def Let_def addClass_def removeClass_def initial_page_def)

subsection \<open>Initializing the avatar\<close>

lemma setupAvatarAnimations_effect:
  assumes "avatarContainer s = Some r" and "length (document_canvases s) \<le> 1"
  shows "avatarContainer (snd (setupAvatarAnimations s)) = Some r"
    and "length (document_canvases (snd (setupAvatarAnimations s))) = 1"
    and "resizeListeners (snd (setupAvatarAnimations s))
           = resizeListeners s @ [Suc (handleCounter s)]"
    and "fst (setupAvatarAnimations s) = Inr (Suc (handleCounter s))"
  using assms
  by (cases "document_canvases s";
      simp add: setupAvatarAnimations_def setCanvasDimensions_def Let_def split: prod.splits)+

text \<open>
  Claim C8, as amended. With the container present and at most one canvas in the document,
  every initialization removes the canvas that is there and adds one, so after one or more
  initializations exactly one canvas is in the document; and every initialization registers
  one more resize listener and removes none, so after \<open>n\<close> initializations \<open>n\<close> more
  listeners are registered.
\<close>

theorem resize_listeners_after_initializations:
  assumes "avatarContainer s = Some r" and "length (document_canvases s) \<le> 1"
  shows "length (resizeListeners (initialize_times n s)) = length (resizeListeners s) + n
         \<and> length (document_canvases (initialize_times n s))
             = (if n = 0 then length (document_canvases s) else 1)"
  using assms
proof (induction n arbitrary: s)
  case 0
  then show ?case by simp
next
  case (Suc n)
  let ?t = "snd (setupAvatarAnimations s)"
  note eff = setupAvatarAnimations_effect[OF Suc.prems]
  have "length (document_canvases ?t) \<le> 1" using eff(2) by simp
  from Suc.IH[OF eff(1) this] show ?case
    using eff(2,3) by (simp split: if_splits)
qed

text \<open>
  Three initializations of the loaded page: three listeners, one canvas.
\<close>

theorem resize_listeners_after_initializations_witness:
  "avatarContainer (initial_page ''candidate_1'' (Some (400, 400))) = Some (400, 400)
   \<and> length (document_canvases (initial_page ''candidate_1'' (Some (400, 400)))) \<le> 1
   \<and> length (resizeListeners (initialize_times 3 (initial_page ''candidate_1'' (Some (400, 400)))))
       = 3
   \<and> length (document_canvases (initialize_times 3 (initial_page ''candidate_1'' (Some (400, 400)))))
       = 1"
proof -
  let ?s = "initial_page ''candidate_1'' (Some (400, 400))"
  have a: "avatarContainer ?s = Some (400, 400)" by (simp add: initial_page_def)
  have b: "length (document_canvases ?s) \<le> 1" by (simp add: initial_page_def)
  have c: "resizeListeners ?s = []" by (simp add: initial_page_def)
  show ?thesis
    using a b c resize_listeners_after_initializations[OF a b, of 3] by simp
qed

text \<open>
  Claim C8 as stated fails: when the avatar image fails to load and the placeholder then
  loads, setupAvatarAnimations has run twice and two resize listeners are registered.
\<close>

theorem two_initializations_two_listeners:
  "\<not> length (resizeListeners
        (snd (avatar_image_handler
           (snd (avatar_image_handler (initial_page ''candidate_1'' (Some (400, 400)))))))) \<le> 1"
  by (simp add: avatar_image_handler_def setupAvatarAnimations_def setCanvasDimensions_def
      initial_page_def Let_def)

subsection \<open>The frame loop\<close>

lemma start_step:
  assumes "surface_available s" and "frame_loop_tracked s" and "\<not> isSpeaking s"
  shows "frame_loop_tracked (snd (startSpeaking s)) \<and> isSpeaking (snd (startSpeaking s))
         \<and> surface_available (snd (startSpeaking s))"
proof -
  from startSpeaking_schedules[OF assms(1)] obtain h l where
    hl: "h \<noteq> 0" "rafQueue (snd (startSpeaking s)) = rafQueue s @ [(h, l)]"
      "animationFrame (snd (startSpeaking s)) = Some h" "isSpeaking (snd (startSpeaking s))"
      "expressionCanvas (snd (startSpeaking s)) \<noteq> None" by blast
  have "rafQueue s = []" using assms(2,3) by (simp add: frame_loop_tracked_def)
  then show ?thesis
    using hl by (auto simp add: frame_loop_tracked_def surface_available_def)
qed

lemma stop_step:
  assumes "frame_loop_tracked s"
  shows "frame_loop_tracked (stopSpeaking s) \<and> \<not> isSpeaking (stopSpeaking s)
         \<and> expressionCanvas (stopSpeaking s) = expressionCanvas s
         \<and> avatarContainer (stopSpeaking s) = avatarContainer s"
  using assms
  by (auto simp add: frame_loop_tracked_def stopSpeaking_def removeClass_def clearCanvas_def
      cancelAnimationFrame_def Let_def split: option.splits list.splits if_splits)

lemma frame_step:
  assumes "frame_loop_tracked s"
  shows "frame_loop_tracked (animation_frame s)
         \<and> isSpeaking (animation_frame s) = isSpeaking s
         \<and> expressionCanvas (animation_frame s) = expressionCanvas s
         \<and> avatarContainer (animation_frame s) = avatarContainer s"
proof (cases "isSpeaking s")
  case True
  with assms obtain e where q: "rafQueue s = [e]" "animationFrame s = Some (fst e)"
    by (auto simp: frame_loop_tracked_def split: list.splits)
  have sp: "isSpeaking (s\<lparr>rafQueue := []\<rparr>)" using True by simp
  show ?thesis
    using True by (simp add: animation_frame_def q drawMouth_speaking[OF sp] frame_loop_tracked_def)
next
  case False
  with assms have "rafQueue s = []" by (simp add: frame_loop_tracked_def)
  then show ?thesis using False by (simp add: animation_frame_def frame_loop_tracked_def)
qed

lemma run_events_tracked:
  assumes "surface_available s" and "frame_loop_tracked s"
    and "starts_only_when_stopped (isSpeaking s) es"
  shows "frame_loop_tracked (run_events es s)
         \<and> isSpeaking (run_events es s) = speaking_after (isSpeaking s) es"
  using assms
proof (induction es arbitrary: s)
  case Nil
  then show ?case by (simp add: run_events_def)
next
  case (Cons e es)
  show ?case
  proof (cases e)
    case StartSpeaking
    with Cons.prems have ns: "\<not> isSpeaking s" and rest: "starts_only_when_stopped True es"
      by simp_all
    from start_step[OF Cons.prems(1,2) ns]
    have st: "frame_loop_tracked (snd (startSpeaking s))" "isSpeaking (snd (startSpeaking s))"
      "surface_available (snd (startSpeaking s))" by simp_all
    from Cons.IH[OF st(3) st(1)] rest st(2)
    show ?thesis using StartSpeaking by (simp add: run_events_def)
  next
    case StopSpeaking
    with Cons.prems have rest: "starts_only_when_stopped False es" by simp
    from stop_step[OF Cons.prems(2)]
    have st: "frame_loop_tracked (stopSpeaking s)" "\<not> isSpeaking (stopSpeaking s)"
      and same: "expressionCanvas (stopSpeaking s) = expressionCanvas s"
        "avatarContainer (stopSpeaking s) = avatarContainer s" by simp_all
    have av: "surface_available (stopSpeaking s)"
      using same Cons.prems(1) by (rule surface_available_kept)
    from Cons.IH[OF av st(1)] rest st(2)
    show ?thesis using StopSpeaking by (simp add: run_events_def)
  next
    case AnimationFrame
    with Cons.prems have rest: "starts_only_when_stopped (isSpeaking s) es" by simp
    from frame_step[OF Cons.prems(2)]
    have st: "frame_loop_tracked (animation_frame s)"
      "isSpeaking (animation_frame s) = isSpeaking s"
      and same: "expressionCanvas (animation_frame s) = expressionCanvas s"
        "avatarContainer (animation_frame s) = avatarContainer s" by simp_all
    have av: "surface_available (animation_frame s)"
      using same Cons.prems(1) by (rule surface_available_kept)
    from Cons.IH[OF av st(1)] rest st(2)
    show ?thesis using AnimationFrame by (simp add: run_events_def)
  qed
qed

text \<open>
  Claim C4, as amended. Take any sequence of startSpeaking calls, stopSpeaking calls and
  animation frames in which startSpeaking is called only while the speaking flag is off,
  from a page with a drawing surface available. At every moment between a startSpeaking
  and the next stopSpeaking exactly one frame callback is scheduled, and none after a
  stopSpeaking.
\<close>

theorem one_frame_loop_between_start_and_stop:
  assumes "surface_available s" and "frame_loop_tracked s"
    and "starts_only_when_stopped (isSpeaking s) es"
  shows "length (rafQueue (run_events es s)) = (if speaking_after (isSpeaking s) es then 1 else 0)
         \<and> isSpeaking (run_events es s) = speaking_after (isSpeaking s) es"
proof -
  from run_events_tracked[OF assms]
  have t: "frame_loop_tracked (run_events es s)"
    and sp: "isSpeaking (run_events es s) = speaking_after (isSpeaking s) es" by simp_all
  show ?thesis
    using t sp by (auto simp: frame_loop_tracked_def split: list.splits if_splits)
qed

text \<open>
  A start, two frames, a stop, a second start and a frame, from the loaded page: one
  callback is scheduled at the end, and none right after the stop.
\<close>

theorem one_frame_loop_between_start_and_stop_witness:
  "surface_available (initial_page ''candidate_1'' (Some (400, 400)))
   \<and> frame_loop_tracked (initial_page ''candidate_1'' (Some (400, 400)))
   \<and> starts_only_when_stopped (isSpeaking (initial_page ''candidate_1'' (Some (400, 400))))
        [StartSpeaking, AnimationFrame, AnimationFrame, StopSpeaking, StartSpeaking, AnimationFrame]
   \<and> length (rafQueue (run_events
        [StartSpeaking, AnimationFrame, AnimationFrame, StopSpeaking, StartSpeaking, AnimationFrame]
        (initial_page ''candidate_1'' (Some (400, 400))))) = 1
   \<and> length (rafQueue (run_events
        [StartSpeaking, AnimationFrame, AnimationFrame, StopSpeaking]
        (initial_page ''candidate_1'' (Some (400, 400))))) = 0"
proof -
  let ?s = "initial_page ''candidate_1'' (Some (400, 400))"
  have a: "surface_available ?s" by (simp add: surface_available_def initial_page_def)
  have b: "frame_loop_tracked ?s" by (simp add: frame_loop_tracked_def initial_page_def)
  have c: "isSpeaking ?s = False" by (simp add: initial_page_def)
  have d: "starts_only_when_stopped (isSpeaking ?s)
      [StartSpeaking, AnimationFrame, AnimationFrame, StopSpeaking, StartSpeaking, AnimationFrame]"
    and e: "starts_only_when_stopped (isSpeaking ?s)
      [StartSpeaking, AnimationFrame, AnimationFrame, StopSpeaking]"
    by (simp_all add: c)
  show ?thesis
    using a b d one_frame_loop_between_start_and_stop[OF a b d]
      one_frame_loop_between_start_and_stop[OF a b e]
    by (simp add: c)
qed

text \<open>
  Claim C4 as stated fails: startSpeaking has no guard. A second call without a
  stopSpeaking in between schedules a second draw loop, and the stopSpeaking that follows
  cancels only the handle it knows, the other callback staying scheduled. And on a page
  with neither canvas nor container, startSpeaking sets the speaking flag and throws a
  TypeError with no callback scheduled.
\<close>

theorem second_startSpeaking_second_loop:
  "length (rafQueue (run_events [StartSpeaking, StartSpeaking]
             (initial_page ''candidate_1'' (Some (400, 400))))) = 2
   \<and> length (rafQueue (run_events [StartSpeaking, StartSpeaking, StopSpeaking]
             (initial_page ''candidate_1'' (Some (400, 400))))) = 1
   \<and> fst (startSpeaking (initial_page ''candidate_1'' None)) = Some TypeError
   \<and> isSpeaking (snd (startSpeaking (initial_page ''candidate_1'' None)))
   \<and> rafQueue (snd (startSpeaking (initial_page ''candidate_1'' None))) = []"
  by (simp add: run_events_def page_defs Let_def)

subsection \<open>The analysis retries\<close>

lemma displayResults_keeps_requests [simp]:
  "requests (snd (displayResults data s)) = requests s"
  "analyzingData (snd (displayResults data s)) = analyzingData s"
  by (simp_all add: displayResults_def showMessage_def addClass_def removeClass_def
      set_content_def Let_def split: option.splits)

lemma analysis_success_effect [simp]:
  "requests (snd (analysis_success data s)) = requests s"
  "\<not> analyzingData (snd (analysis_success data s))"
  by (simp_all add: analysis_success_def set_content_def Let_def displayResults_keeps_requests)

lemma analysis_error_tasks:
  "tasks (analysis_error s) =
     (if analysisRetryCount s < MAX_RETRY_ATTEMPTS then tasks s @ [retry_timer] else tasks s)"
  by (simp add: analysis_error_def retry_timer_def showMessage_def addClass_def Let_def)

lemma analysis_error_final:
  assumes "\<not> analysisRetryCount s < MAX_RETRY_ATTEMPTS"
  shows "requests (analysis_error s) = requests s"
    and "\<not> analyzingData (analysis_error s)"
    and "statusMessages (analysis_error s) = statusMessages s @ [terminal_message]"
    and "analysisRetryCount (analysis_error s) = analysisRetryCount s"
  using assms
  by (simp_all add: analysis_error_def terminal_message_def showMessage_def addClass_def)

lemma retried_effect:
  assumes "analysisRetryCount s < MAX_RETRY_ATTEMPTS" and "retry_timer \<notin> set (tasks s)"
  shows "requests (retried s) = requests s @ [analysis_request s]"
    and "analysisRetryCount (retried s) = analysisRetryCount s + 1"
    and "tasks (retried s) = tasks s"
    and "candidateId (retried s) = candidateId s"
    and "questions (retried s) = questions s"
    and "analyzingData (retried s) = analyzingData s"
  using assms
  by (simp_all add: retried_def run_task_def analysis_error_def retry_timer_def
      analysis_request_def analyzeInterviewResponses_def showMessage_def Let_def
      remove1_append)

lemma analysis_responses_failed:
  "analysis_responses (AnalysisFailed # rs) s =
     (if analysisRetryCount s < MAX_RETRY_ATTEMPTS \<or> retry_timer \<in> set (tasks s)
      then analysis_responses rs (retried s) else analysis_error s)"
  by (simp add: retried_def analysis_error_tasks Let_def retry_timer_def[symmetric])

lemma leading_failures_simps [simp]:
  "leading_failures [] = 0"
  "leading_failures (AnalysisFailed # rs) = Suc (leading_failures rs)"
  "leading_failures (AnalysisSucceeded d # rs) = 0"
  by (simp_all add: leading_failures_def)

lemma requests_after_responses:
  assumes "analysisRetryCount s \<le> MAX_RETRY_ATTEMPTS" and "retry_timer \<notin> set (tasks s)"
  shows "requests (analysis_responses rs s) =
           requests s @ replicate (min (leading_failures rs)
                                     (MAX_RETRY_ATTEMPTS - analysisRetryCount s))
                          (analysis_request s)"
  using assms
proof (induction rs arbitrary: s)
  case Nil
  then show ?case by simp
next
  case (Cons r rs)
  show ?case
  proof (cases r)
    case (AnalysisSucceeded d)
    then show ?thesis by simp
  next
    case AnalysisFailed
    show ?thesis
    proof (cases "analysisRetryCount s < MAX_RETRY_ATTEMPTS")
      case True
      note eff = retried_effect[OF True Cons.prems(2)]
      have a: "analysisRetryCount (retried s) \<le> MAX_RETRY_ATTEMPTS" using True eff(2) by simp
      have b: "retry_timer \<notin> set (tasks (retried s))" using Cons.prems(2) eff(3) by simp
      have c: "analysis_request (retried s) = analysis_request s"
        using eff(4,5) by (simp add: analysis_request_def)
      have m: "min (Suc (leading_failures rs)) (MAX_RETRY_ATTEMPTS - analysisRetryCount s)
            = Suc (min (leading_failures rs) (MAX_RETRY_ATTEMPTS - Suc (analysisRetryCount s)))"
        using True by simp
      show ?thesis
        using Cons.IH[OF a b] True
        by (simp add: AnalysisFailed analysis_responses_failed eff(1,2) c m
            del: analysis_responses.simps replicate_Suc)
           (simp add: replicate_Suc[symmetric] del: replicate_Suc)
    next
      case False
      then have "analysisRetryCount s = MAX_RETRY_ATTEMPTS" using Cons.prems(1) by simp
      then show ?thesis
        using False Cons.prems(2)
        by (simp add: AnalysisFailed analysis_responses_failed analysis_error_final
            del: analysis_responses.simps)
    qed
  qed
qed

lemma failed_after_responses:
  assumes "analysisRetryCount s \<le> MAX_RETRY_ATTEMPTS" and "retry_timer \<notin> set (tasks s)"
    and "leading_failures rs > MAX_RETRY_ATTEMPTS - analysisRetryCount s"
  shows "\<not> analyzingData (analysis_responses rs s)
         \<and> last (statusMessages (analysis_responses rs s)) = terminal_message
         \<and> analysisRetryCount (analysis_responses rs s) = MAX_RETRY_ATTEMPTS"
  using assms
proof (induction rs arbitrary: s)
  case Nil
  then show ?case by simp
next
  case (Cons r rs)
  show ?case
  proof (cases r)
    case (AnalysisSucceeded d)
    with Cons.prems show ?thesis by simp
  next
    case AnalysisFailed
    show ?thesis
    proof (cases "analysisRetryCount s < MAX_RETRY_ATTEMPTS")
      case True
      note eff = retried_effect[OF True Cons.prems(2)]
      have a: "analysisRetryCount (retried s) \<le> MAX_RETRY_ATTEMPTS" using True eff(2) by simp
      have b: "retry_timer \<notin> set (tasks (retried s))" using Cons.prems(2) eff(3) by simp
      have c: "leading_failures rs > MAX_RETRY_ATTEMPTS - analysisRetryCount (retried s)"
        using Cons.prems(3) True eff(2) by (simp add: AnalysisFailed)
      show ?thesis
        using Cons.IH[OF a b c] True
        by (simp add: AnalysisFailed analysis_responses_failed del: analysis_responses.simps)
    next
      case False
      then have "analysisRetryCount s = MAX_RETRY_ATTEMPTS" using Cons.prems(1) by simp
      then show ?thesis
        using False Cons.prems(2)
        by (simp add: AnalysisFailed analysis_responses_failed analysis_error_final
            del: analysis_responses.simps)
    qed
  qed
qed

lemma stopRecording_keeps [simp]:
  "requests (stopRecording s) = requests s"
  "candidateId (stopRecording s) = candidateId s"
  "questions (stopRecording s) = questions s"
  "(retry_timer \<in> set (tasks (stopRecording s))) = (retry_timer \<in> set (tasks s))"
  by (auto simp add: stopRecording_def recorder_stop_def stopCheatingDetection_def
      retry_timer_def showMessage_def removeClass_def set_content_def Let_def
      split: option.splits)

lemma stopInterview_submits:
  "requests (stopInterview s) = requests s @ [analysis_request s]"
  "analysisRetryCount (stopInterview s) = 0"
  "analyzingData (stopInterview s)"
  "candidateId (stopInterview s) = candidateId s"
  "questions (stopInterview s) = questions s"
  "(retry_timer \<in> set (tasks (stopInterview s))) = (retry_timer \<in> set (tasks s))"
  by (simp_all add: stopInterview_def analyzeInterviewResponses_def analysis_request_def
      showMessage_def removeClass_def set_disabled_def set_content_def Let_def
      stopRecording_keeps stopSpeaking_fields)

lemma still_analyzing:
  assumes "analysisRetryCount s + m \<le> MAX_RETRY_ATTEMPTS" and "retry_timer \<notin> set (tasks s)"
  shows "analyzingData (analysis_responses (replicate m AnalysisFailed) s) = analyzingData s"
  using assms
proof (induction m arbitrary: s)
  case 0
  then show ?case by simp
next
  case (Suc m)
  then have lt: "analysisRetryCount s < MAX_RETRY_ATTEMPTS" by simp
  note eff = retried_effect[OF lt Suc.prems(2)]
  have a: "analysisRetryCount (retried s) + m \<le> MAX_RETRY_ATTEMPTS"
    using Suc.prems(1) eff(2) by simp
  have b: "retry_timer \<notin> set (tasks (retried s))" using Suc.prems(2) eff(3) by simp
  show ?case
    using Suc.IH[OF a b] lt eff(6)
    by (simp add: analysis_responses_failed del: analysis_responses.simps)
qed

text \<open>
  Claim C3, as amended. stopInterview sends the analysis request; every failure is
  followed by a retry, 5000 milliseconds later, as long as fewer than three retries were
  made. Whatever the answers, the requests sent are the first one and one more for each
  of the first three failures: four at most, never a fifth. After up to three failures in
  a row the analysis is still running; with a fourth failure in a row it ends, and the
  last message shown is the terminal error.
\<close>

theorem analysis_retries:
  assumes "Timeout 5000 AnalysisRetry \<notin> set (tasks s)"
  shows "requests (analysis_responses rs (stopInterview s)) =
           requests s @ replicate (1 + min (leading_failures rs) 3) (analysis_request s)
         \<and> (m \<le> 3 \<longrightarrow>
              analyzingData (analysis_responses (replicate m AnalysisFailed) (stopInterview s)))
         \<and> (leading_failures rs > 3 \<longrightarrow>
              \<not> analyzingData (analysis_responses rs (stopInterview s))
              \<and> last (statusMessages (analysis_responses rs (stopInterview s)))
                  = terminal_message)
         \<and> tasks (analysis_error s) =
             (if analysisRetryCount s < 3 then tasks s @ [Timeout 5000 AnalysisRetry]
              else tasks s)"
proof -
  let ?t = "stopInterview s"
  have c: "analysisRetryCount ?t \<le> MAX_RETRY_ATTEMPTS" by (simp add: stopInterview_submits)
  have nt: "retry_timer \<notin> set (tasks ?t)"
    using assms by (simp add: stopInterview_submits retry_timer_def[symmetric])
  have req: "analysis_request ?t = analysis_request s"
    by (simp add: analysis_request_def stopInterview_submits)
  have one: "requests (analysis_responses rs ?t) =
      requests s @ replicate (1 + min (leading_failures rs) 3) (analysis_request s)"
    using requests_after_responses[OF c nt, of rs]
    by (simp add: stopInterview_submits req MAX_RETRY_ATTEMPTS_def)
  have two: "analyzingData (analysis_responses (replicate m AnalysisFailed) ?t)" if "m \<le> 3"
  proof -
    have "analysisRetryCount ?t + m \<le> MAX_RETRY_ATTEMPTS"
      using that by (simp add: stopInterview_submits MAX_RETRY_ATTEMPTS_def)
    from still_analyzing[OF this nt] show ?thesis by (simp add: stopInterview_submits)
  qed
  have three: "\<not> analyzingData (analysis_responses rs ?t)
      \<and> last (statusMessages (analysis_responses rs ?t)) = terminal_message"
    if "leading_failures rs > 3"
  proof -
    have "leading_failures rs > MAX_RETRY_ATTEMPTS - analysisRetryCount ?t"
      using that by (simp add: stopInterview_submits MAX_RETRY_ATTEMPTS_def)
    from failed_after_responses[OF c nt this] show ?thesis by simp
  qed
  have four: "tasks (analysis_error s) =
      (if analysisRetryCount s < 3 then tasks s @ [Timeout 5000 AnalysisRetry] else tasks s)"
    by (simp add: analysis_error_tasks MAX_RETRY_ATTEMPTS_def retry_timer_def)
  show ?thesis using one two three four by blast
qed

text \<open>
  Five failures in a row after stopInterview on the loaded page: four requests were sent,
  and the analysis has ended.
\<close>

theorem analysis_retries_witness:
  "Timeout 5000 AnalysisRetry \<notin> set (tasks (initial_page ''candidate_1'' None))
   \<and> requests (analysis_responses
        [AnalysisFailed, AnalysisFailed, AnalysisFailed, AnalysisFailed, AnalysisFailed]
        (stopInterview (initial_page ''candidate_1'' None)))
       = replicate 4 (AnalyzeInterviewRequest ''candidate_1'' 0)
   \<and> \<not> analyzingData (analysis_responses
        [AnalysisFailed, AnalysisFailed, AnalysisFailed, AnalysisFailed, AnalysisFailed]
        (stopInterview (initial_page ''candidate_1'' None)))"
proof -
  let ?s = "initial_page ''candidate_1'' None"
  let ?rs = "[AnalysisFailed, AnalysisFailed, AnalysisFailed, AnalysisFailed, AnalysisFailed]"
  have a: "Timeout 5000 AnalysisRetry \<notin> set (tasks ?s)" by (simp add: initial_page_def)
  have b: "leading_failures ?rs = 5" by simp
  have c: "requests ?s = []" "analysis_request ?s = AnalyzeInterviewRequest ''candidate_1'' 0"
    by (simp_all add: initial_page_def analysis_request_def)
  show ?thesis
    using a analysis_retries[OF a, of ?rs 0] by (simp add: b c eval_nat_numeral)
qed

text \<open>
  Claim C3 as stated fails: after three failures in a row a fourth request has been sent,
  the analysis is still running, and the only errors shown announce retries.
\<close>

theorem fourth_request_after_three_failures:
  "requests (analysis_responses [AnalysisFailed, AnalysisFailed, AnalysisFailed]
      (stopInterview (initial_page ''candidate_1'' None)))
     = [AnalyzeInterviewRequest ''candidate_1'' 0, AnalyzeInterviewRequest ''candidate_1'' 0,
        AnalyzeInterviewRequest ''candidate_1'' 0, AnalyzeInterviewRequest ''candidate_1'' 0]
   \<and> analyzingData (analysis_responses [AnalysisFailed, AnalysisFailed, AnalysisFailed]
        (stopInterview (initial_page ''candidate_1'' None)))
   \<and> error_messages (analysis_responses [AnalysisFailed, AnalysisFailed, AnalysisFailed]
        (stopInterview (initial_page ''candidate_1'' None)))
       = [''Analysis failed. Retrying (1/3)...'', ''Analysis failed. Retrying (2/3)...'',
          ''Analysis failed. Retrying (3/3)...'']"
proof -
  let ?s = "initial_page ''candidate_1'' None"
  let ?t = "stopInterview ?s"
  have t: "?t = ?s\<lparr>disabled := {''#startBtn'', ''#nextBtn'', ''#stopBtn''},
        statusMessages := [(''Analyzing interview responses...'', Info)],
        content := (\<lambda>element. [])(''#progressBar'' := ''Analyzing...''),
        analyzingData := True,
        requests := [AnalyzeInterviewRequest ''candidate_1'' 0]\<rparr>"
    by (auto simp add: page_defs Let_def)
  show ?thesis
    unfolding t
    by (simp add: initial_page_def analysis_error_def run_task_def analyzeInterviewResponses_def
        showMessage_def addClass_def MAX_RETRY_ATTEMPTS_def error_messages_def Let_def)
qed

subsection \<open>Speaking a question\<close>




end
